theory Spec2Isabelle
  imports Complex_Main
begin

section \<open>Paired-comparison subjective models (sureal/pc_subjective_model.py)\<close>

text \<open>
  The three solvers of \<^verbatim>\<open>pc_subjective_model.py\<close> are embedded as HOL functions.
  Numbers are exact reals extended with the three special values of IEEE arithmetic that
  numpy produces instead of raising (\<open>inf\<close>, \<open>-inf\<close>, \<open>nan\<close>): rounding is not
  modelled, zero is unsigned, and \<open>x / 0\<close> takes the sign of \<open>x\<close>.
  Python exceptions are values of type \<open>error\<close>; the two unbounded \<^verbatim>\<open>while\<close> loops
  are partial functions whose value \<open>None\<close> stands for a loop that never exits.
  The fixed-point loop of the BTMLE solver has a second model, in binary64 arithmetic, for
  the statement about it that depends on rounding.
  The library routines the solvers call (\<^verbatim>\<open>scipy.linalg.pinv\<close>, \<^verbatim>\<open>numpy.linalg.pinv\<close>,
  \<^verbatim>\<open>scipy.stats.norm.cdf\<close>, \<^verbatim>\<open>scipy.optimize.minimize\<close>) are parameters of the model.
\<close>

subsection \<open>numpy scalars\<close>

datatype npfloat = Fin real | PInf | NInf | NaN

fun is_fin :: "npfloat \<Rightarrow> bool" where
  "is_fin (Fin r) = True"
| "is_fin PInf = False"
| "is_fin NInf = False"
| "is_fin NaN = False"

fun the_fin :: "npfloat \<Rightarrow> real" where
  "the_fin (Fin r) = r"
| "the_fin PInf = 0"
| "the_fin NInf = 0"
| "the_fin NaN = 0"

fun np_neg :: "npfloat \<Rightarrow> npfloat" where
  "np_neg (Fin r) = Fin (- r)"
| "np_neg PInf = NInf"
| "np_neg NInf = PInf"
| "np_neg NaN = NaN"

fun np_add :: "npfloat \<Rightarrow> npfloat \<Rightarrow> npfloat" where
  "np_add (Fin a) (Fin b) = Fin (a + b)"
| "np_add (Fin a) PInf = PInf"
| "np_add (Fin a) NInf = NInf"
| "np_add (Fin a) NaN = NaN"
| "np_add PInf (Fin b) = PInf"
| "np_add PInf PInf = PInf"
| "np_add PInf NInf = NaN"
| "np_add PInf NaN = NaN"
| "np_add NInf (Fin b) = NInf"
| "np_add NInf PInf = NaN"
| "np_add NInf NInf = NInf"
| "np_add NInf NaN = NaN"
| "np_add NaN b = NaN"

definition np_sub :: "npfloat \<Rightarrow> npfloat \<Rightarrow> npfloat" where
  "np_sub a b = np_add a (np_neg b)"

fun np_mul :: "npfloat \<Rightarrow> npfloat \<Rightarrow> npfloat" where
  "np_mul (Fin a) (Fin b) = Fin (a * b)"
| "np_mul (Fin a) PInf = (if a = 0 then NaN else if 0 < a then PInf else NInf)"
| "np_mul (Fin a) NInf = (if a = 0 then NaN else if 0 < a then NInf else PInf)"
| "np_mul (Fin a) NaN = NaN"
| "np_mul PInf (Fin b) = (if b = 0 then NaN else if 0 < b then PInf else NInf)"
| "np_mul PInf PInf = PInf"
| "np_mul PInf NInf = NInf"
| "np_mul PInf NaN = NaN"
| "np_mul NInf (Fin b) = (if b = 0 then NaN else if 0 < b then NInf else PInf)"
| "np_mul NInf PInf = NInf"
| "np_mul NInf NInf = PInf"
| "np_mul NInf NaN = NaN"
| "np_mul NaN b = NaN"

fun np_div :: "npfloat \<Rightarrow> npfloat \<Rightarrow> npfloat" where
  "np_div (Fin a) (Fin b) =
     (if b \<noteq> 0 then Fin (a / b) else if a = 0 then NaN else if 0 < a then PInf else NInf)"
| "np_div (Fin a) PInf = Fin 0"
| "np_div (Fin a) NInf = Fin 0"
| "np_div (Fin a) NaN = NaN"
| "np_div PInf (Fin b) = (if 0 \<le> b then PInf else NInf)"
| "np_div PInf PInf = NaN"
| "np_div PInf NInf = NaN"
| "np_div PInf NaN = NaN"
| "np_div NInf (Fin b) = (if 0 \<le> b then NInf else PInf)"
| "np_div NInf PInf = NaN"
| "np_div NInf NInf = NaN"
| "np_div NInf NaN = NaN"
| "np_div NaN b = NaN"

fun np_log :: "npfloat \<Rightarrow> npfloat" where
  "np_log (Fin r) = (if 0 < r then Fin (ln r) else if r = 0 then NInf else NaN)"
| "np_log PInf = PInf"
| "np_log NInf = NaN"
| "np_log NaN = NaN"

fun np_exp :: "npfloat \<Rightarrow> npfloat" where
  "np_exp (Fin r) = Fin (exp r)"
| "np_exp PInf = PInf"
| "np_exp NInf = Fin 0"
| "np_exp NaN = NaN"

fun np_sqrt :: "npfloat \<Rightarrow> npfloat" where
  "np_sqrt (Fin r) = (if 0 \<le> r then Fin (sqrt r) else NaN)"
| "np_sqrt PInf = PInf"
| "np_sqrt NInf = NaN"
| "np_sqrt NaN = NaN"

definition np_sum :: "npfloat list \<Rightarrow> npfloat" where
  "np_sum xs = foldr np_add xs (Fin 0)"

subsection \<open>numpy arrays as lists\<close>

text \<open>
  A one-dimensional array is a list, a two-dimensional array a list of rows of one length
  (an array without rows has no columns either).
  \<open>mat_of r c f\<close> is the \<open>r \<times> c\<close> array with entry \<open>f i j\<close> at \<open>[i, j]\<close>, \<open>np_T\<close> the
  transpose, \<open>np_tile v M\<close> is \<^verbatim>\<open>np.tile(v, (M, 1))\<close>, \<open>mm2 f\<close> applies \<open>f\<close> entry by entry to
  two arrays of one shape, \<open>masked_set msk target vals\<close> is the array \<^verbatim>\<open>target\<close> after
  \<^verbatim>\<open>target[msk] = vals[msk]\<close>, \<open>np_diag\<close> is \<^verbatim>\<open>np.diag\<close> of a vector and \<open>np_diagonal\<close> is
  \<^verbatim>\<open>np.diagonal\<close> of a matrix.
\<close>

definition mat_of :: "nat \<Rightarrow> nat \<Rightarrow> (nat \<Rightarrow> nat \<Rightarrow> 'a) \<Rightarrow> 'a list list" where
  "mat_of r c f = map (\<lambda>i. map (\<lambda>j. f i j) [0..<c]) [0..<r]"

definition shape :: "'a list list \<Rightarrow> nat \<times> nat" where
  "shape A = (length A, if A = [] then 0 else length (hd A))"

definition np_T :: "'a list list \<Rightarrow> 'a list list" where
  "np_T A = mat_of (snd (shape A)) (length A) (\<lambda>i j. A ! j ! i)"

definition np_tile :: "'a list \<Rightarrow> nat \<Rightarrow> 'a list list" where
  "np_tile v M = replicate M v"

definition mm2 :: "('a \<Rightarrow> 'b \<Rightarrow> 'c) \<Rightarrow> 'a list list \<Rightarrow> 'b list list \<Rightarrow> 'c list list" where
  "mm2 f A B = map2 (map2 f) A B"

definition lift :: "real list list \<Rightarrow> npfloat list list" where
  "lift A = map (map Fin) A"

definition masked_set :: "bool list list \<Rightarrow> 'a list list \<Rightarrow> 'a list list \<Rightarrow> 'a list list" where
  "masked_set msk target vals =
     mm2 (\<lambda>m tv. if m then snd tv else fst tv) msk (mm2 Pair target vals)"

definition np_diag :: "'a \<Rightarrow> 'a list \<Rightarrow> 'a list list" where
  "np_diag z v = mat_of (length v) (length v) (\<lambda>i j. if i = j then v ! i else z)"

definition np_diagonal :: "'a list list \<Rightarrow> 'a list" where
  "np_diagonal A = map (\<lambda>i. A ! i ! i) [0..<min (fst (shape A)) (snd (shape A))]"

subsection \<open>Python values, errors, results\<close>

datatype pyval = PyNone | PyBool bool | PyInt int | PyStr string

fun truthy :: "pyval \<Rightarrow> bool" where
  "truthy PyNone = False"
| "truthy (PyBool b) = b"
| "truthy (PyInt i) = (i \<noteq> 0)"
| "truthy (PyStr s) = (s \<noteq> [])"

type_synonym kwargs = "string \<rightharpoonup> pyval"

datatype error =
    AssertionError string
  | ValueError string
  | ZeroDivisionError
  | IndexError
  | LinAlgError

record result =
  quality_scores :: "npfloat list"
  quality_scores_std :: "npfloat list option"

record dataset_reader =
  opinion_score_3darray :: "real option list list list"

text \<open>\<^verbatim>\<open>np.nansum(dataset_reader.opinion_score_3darray, axis=2)\<close>: a missing observation
  (\<open>None\<close>, numpy's nan) counts as zero.\<close>

definition np_nansum_axis2 :: "real option list list list \<Rightarrow> real list list" where
  "np_nansum_axis2 arr = map (map (\<lambda>obs. sum_list (map (case_option 0 id) obs))) arr"

definition DELTA_THR :: real where
  "DELTA_THR = 1 / 10 ^ 8"

text \<open>\<^verbatim>\<open>scipy.linalg.norm\<close> of a vector: it rejects a non-finite entry
  (\<^verbatim>\<open>check_finite=True\<close>) and is the Euclidean norm otherwise.\<close>

definition linalg_norm :: "real list \<Rightarrow> real" where
  "linalg_norm v = sqrt (sum_list (map (\<lambda>c. c * c) v))"

definition np_linalg_norm :: "npfloat list \<Rightarrow> error + real" where
  "np_linalg_norm v =
     (if list_all is_fin v then Inr (linalg_norm (map the_fin v))
      else Inl (ValueError ''array must not contain infs or NaNs''))"

text \<open>\<^verbatim>\<open>np.matmul\<close> of a matrix and a vector; the inner dimensions must agree.\<close>

definition np_matmul :: "real list list \<Rightarrow> real list \<Rightarrow> error + real list" where
  "np_matmul A v =
     (if list_all (\<lambda>r. length r = length v) A
      then Inr (map (\<lambda>r. sum_list (map2 (*) r v)) A)
      else Inl (ValueError ''matmul: mismatch in core dimension''))"

text \<open>An elementwise operation on two vectors, with numpy's broadcasting of a vector of
  length one; \<open>np_isub\<close> is the in-place \<^verbatim>\<open>a -= b\<close>, whose result has the shape of \<open>a\<close>.\<close>

definition np_bcast2 :: "('a \<Rightarrow> 'b \<Rightarrow> 'c) \<Rightarrow> 'a list \<Rightarrow> 'b list \<Rightarrow> error + 'c list" where
  "np_bcast2 f xs ys =
     (if length xs = length ys then Inr (map2 f xs ys)
      else if length xs = 1 then Inr (map (f (hd xs)) ys)
      else if length ys = 1 then Inr (map (\<lambda>x. f x (hd ys)) xs)
      else Inl (ValueError ''operands could not be broadcast together''))"

definition np_isub :: "real list \<Rightarrow> real list \<Rightarrow> error + real list" where
  "np_isub a b =
     (if length b = length a then Inr (map2 (-) a b)
      else if length b = 1 then Inr (map (\<lambda>x. x - hd b) a)
      else Inl (ValueError ''operands could not be broadcast together''))"

subsection \<open>Bradley-Terry, Newton-Raphson (BTNR)\<close>

record btnr_state =
  st_gamma :: "real list"
  st_rus :: "real list list"
  st_y :: "real list list"
  st_iteration :: nat
  st_change :: "real list"

text \<open>\<^verbatim>\<open>gm = wm[0:nmo, :] + wm[:, 0:nmo].transpose()\<close>\<close>

definition gm_of :: "real list list \<Rightarrow> real list list" where
  "gm_of wm = (let nmo = length wm - 1 in mm2 (+) (take nmo wm) (np_T (map (take nmo) wm)))"

text \<open>\<^verbatim>\<open>wins = np.sum(wm[0:nmo, :], axis=1)\<close>\<close>

definition wins_of :: "real list list \<Rightarrow> real list" where
  "wins_of wm = map sum_list (take (length wm - 1) wm)"

text \<open>\<^verbatim>\<open>gind = (gm > 0)\<close>\<close>

definition gind_of :: "real list list \<Rightarrow> bool list list" where
  "gind_of wm = map (map (\<lambda>g. 0 < g)) (gm_of wm)"

text \<open>One pass through the body of the \<^verbatim>\<open>while\<close> loop (lines 135 to 152).\<close>

definition BTNR_body ::
  "(real list list \<Rightarrow> real list list) \<Rightarrow> real list list \<Rightarrow> btnr_state \<Rightarrow> error + btnr_state" where
  "BTNR_body pinv wm st =
     (let n = length wm; nmo = n - 1;
          gm = gm_of wm; wins = wins_of wm; gind = gind_of wm;
          squaregind = map (take nmo) gind;
          pi = map exp (st_gamma st);
          pius0 = np_T (np_tile pi n);
          piust = np_T (map (take nmo) pius0);
          pius = take nmo pius0;
          rus = masked_set gind (st_rus st) (mm2 (/) pius (mm2 (+) pius piust));
          y1 = masked_set gind (st_y st) (mm2 (*) gm rus);
          d2Q = map (\<lambda>r. - sum_list r) y1;
          dL = map2 (+) wins d2Q;
          y2 = masked_set gind y1 (mm2 (*) y1 (map (map (\<lambda>r. 1 - r)) rus));
          d2L0 = map (map uminus) (np_diag 0 (map sum_list y2));
          d2L = masked_set squaregind d2L0 (map butlast y2)
      in case np_matmul (pinv d2L) dL of
           Inl e \<Rightarrow> Inl e
         | Inr c \<Rightarrow>
             (let change = c @ [0] in
              case np_isub (st_gamma st) change of
                Inl e \<Rightarrow> Inl e
              | Inr gamma \<Rightarrow>
                  Inr \<lparr>st_gamma = gamma, st_rus = rus, st_y = y2,
                       st_iteration = st_iteration st + 1, st_change = change\<rparr>))"

text \<open>The loop: \<^verbatim>\<open>change\<close> starts at the largest float, so the body always runs once;
  after each pass the loop goes on while \<^verbatim>\<open>linalg.norm(change) > DELTA_THR\<close>.\<close>

partial_function (option) BTNR_loop ::
  "(real list list \<Rightarrow> real list list) \<Rightarrow> real list list \<Rightarrow> btnr_state \<Rightarrow> (error + btnr_state) option" where
  "BTNR_loop pinv wm st =
     (case BTNR_body pinv wm st of
        Inl e \<Rightarrow> Some (Inl e)
      | Inr st' \<Rightarrow>
          if linalg_norm (st_change st') > DELTA_THR then BTNR_loop pinv wm st'
          else Some (Inr st'))"

text \<open>The state before the loop (lines 120 to 130); \<^verbatim>\<open>np.zeros([nmo, n])\<close> raises for
  the empty matrix, where \<^verbatim>\<open>nmo\<close> is \<open>-1\<close>.\<close>

definition BTNR_init :: "real list list \<Rightarrow> error + btnr_state" where
  "BTNR_init wm =
     (let n = length wm in
      if n = 0 then Inl (ValueError ''negative dimensions are not allowed'')
      else Inr \<lparr>st_gamma = replicate n 0,
                st_rus = replicate (n - 1) (replicate n 0),
                st_y = replicate (n - 1) (replicate n 0),
                st_iteration = 0, st_change = []\<rparr>)"

text \<open>Lines 117 to 163: the score vector before the optional standardisation.\<close>

definition BTNR_scores ::
  "(real list list \<Rightarrow> real list list) \<Rightarrow> real list list \<Rightarrow> (error + real list) option" where
  "BTNR_scores pinv wm =
     (let (n, m) = shape wm in
      if n \<noteq> m then Some (Inl (AssertionError []))
      else
        (case BTNR_init wm of
           Inl e \<Rightarrow> Some (Inl e)
         | Inr st0 \<Rightarrow>
            (case BTNR_loop pinv wm st0 of
               None \<Rightarrow> None
             | Some (Inl e) \<Rightarrow> Some (Inl e)
             | Some (Inr st) \<Rightarrow>
                 (let scores = st_gamma st in
                  if scores = [] then Some (Inl IndexError)
                  else Some (Inr (list_update scores (length scores - 1) 0))))))"

definition np_mean :: "real list \<Rightarrow> real" where
  "np_mean xs = sum_list xs / real (length xs)"

definition np_std :: "real list \<Rightarrow> real" where
  "np_std xs = sqrt (np_mean (map (\<lambda>x. (x - np_mean xs) * (x - np_mean xs)) xs))"

text \<open>Lines 168 to 173.\<close>

definition zscore_output_of :: "kwargs \<Rightarrow> pyval" where
  "zscore_output_of kw = (case kw ''zscore_output'' of Some v \<Rightarrow> v | None \<Rightarrow> PyBool False)"

definition zscore :: "real list \<Rightarrow> npfloat list" where
  "zscore scores =
     (let scores_mean = np_mean scores; scores_std = np_std scores
      in map (\<lambda>s. np_div (Fin (s - scores_mean)) (Fin scores_std)) scores)"

definition BTNR_fit ::
  "(real list list \<Rightarrow> real list list) \<Rightarrow> real list list \<Rightarrow> kwargs \<Rightarrow> (error + result) option" where
  "BTNR_fit pinv wm kw =
     (case BTNR_scores pinv wm of
        None \<Rightarrow> None
      | Some (Inl e) \<Rightarrow> Some (Inl e)
      | Some (Inr scores) \<Rightarrow>
          Some (Inr \<lparr>quality_scores =
                       (if truthy (zscore_output_of kw) then zscore scores else map Fin scores),
                     quality_scores_std = None\<rparr>))"

definition BTNR_run_modeling ::
  "(real list list \<Rightarrow> real list list) \<Rightarrow> dataset_reader \<Rightarrow> kwargs \<Rightarrow> (error + result) option" where
  "BTNR_run_modeling pinv dataset_reader kw =
     BTNR_fit pinv (np_nansum_axis2 (opinion_score_3darray dataset_reader)) kw"

subsection \<open>Bradley-Terry, maximum likelihood by fixed-point iteration (BTMLE)\<close>

text \<open>Lines 213 to 216: the new \<^verbatim>\<open>p\<close> from the previous one.\<close>

definition BTMLE_update :: "real list list \<Rightarrow> npfloat list \<Rightarrow> npfloat list" where
  "BTMLE_update alpha p =
     (let M = length alpha;
          n = mm2 (+) alpha (np_T alpha);
          pp = mm2 np_add (np_tile p M) (np_T (np_tile p M));
          p1 = map2 np_div (map (\<lambda>r. Fin (sum_list r)) alpha)
                           (map np_sum (mm2 np_div (lift n) pp))
      in map (\<lambda>x. np_div x (np_sum p1)) p1)"

text \<open>One pass through the loop body (lines 211 to 218): the new \<^verbatim>\<open>p\<close> and
  \<^verbatim>\<open>change = linalg.norm(p - p_prev)\<close>, which raises on a non-finite entry.\<close>

definition BTMLE_body :: "real list list \<Rightarrow> npfloat list \<Rightarrow> error + npfloat list \<times> real" where
  "BTMLE_body alpha p_prev =
     (let p = BTMLE_update alpha p_prev in
      case np_linalg_norm (map2 np_sub p p_prev) of
        Inl e \<Rightarrow> Inl e
      | Inr change \<Rightarrow> Inr (p, change))"

partial_function (option) BTMLE_loop ::
  "real list list \<Rightarrow> npfloat list \<Rightarrow> (error + npfloat list) option" where
  "BTMLE_loop alpha p_prev =
     (case BTMLE_body alpha p_prev of
        Inl e \<Rightarrow> Some (Inl e)
      | Inr pc \<Rightarrow>
          if snd pc > DELTA_THR then BTMLE_loop alpha (fst pc)
          else Some (Inr (fst pc)))"

text \<open>\<^verbatim>\<open>p = 1.0 / M * np.ones(M)\<close>\<close>

definition BTMLE_p0 :: "nat \<Rightarrow> npfloat list" where
  "BTMLE_p0 M = replicate M (Fin (1 / real M * 1))"

text \<open>The value of \<^verbatim>\<open>p\<close> after \<open>k\<close> passes through the loop body, whatever the
  convergence test says.\<close>

fun BTMLE_iterate :: "real list list \<Rightarrow> nat \<Rightarrow> error + npfloat list" where
  "BTMLE_iterate alpha 0 = Inr (BTMLE_p0 (length alpha))"
| "BTMLE_iterate alpha (Suc k) =
     (case BTMLE_iterate alpha k of
        Inl e \<Rightarrow> Inl e
      | Inr p \<Rightarrow> (case BTMLE_body alpha p of Inl e \<Rightarrow> Inl e | Inr pc \<Rightarrow> Inr (fst pc)))"

text \<open>Lines 225 to 234: the standard errors from the converged \<^verbatim>\<open>p\<close>.\<close>

definition BTMLE_bordered :: "real list list \<Rightarrow> npfloat list \<Rightarrow> npfloat list list" where
  "BTMLE_bordered alpha p =
     (let M = length alpha;
          n = mm2 (+) alpha (np_T alpha);
          pT = np_T (np_tile p M);
          pp = mm2 np_add (np_tile p M) pT;
          lbda_ii = map np_sum
                      (mm2 np_add (mm2 np_div (lift (map (map uminus) alpha)) (mm2 np_mul pT pT))
                                  (mm2 np_div (lift n) (mm2 np_mul pp pp)));
          lbda_ij = map (map (\<lambda>x. np_mul x (Fin 2))) (mm2 np_div (lift n) pp);
          lbda = mm2 np_add lbda_ij (np_diag (Fin 0) lbda_ii)
      in map (\<lambda>r. map np_neg r @ [Fin 1]) lbda @ [replicate M (Fin 1) @ [Fin 0]])"

definition BTMLE_std ::
  "(npfloat list list \<Rightarrow> error + npfloat list list) \<Rightarrow> real list list \<Rightarrow> npfloat list
     \<Rightarrow> error + npfloat list" where
  "BTMLE_std pinv alpha p =
     (case pinv (BTMLE_bordered alpha p) of
        Inl e \<Rightarrow> Inl e
      | Inr cova \<Rightarrow>
          (let vari = butlast (np_diagonal cova);
               stdv = map np_sqrt vari
           in np_bcast2 np_div stdv p))"

definition BTMLE_fit ::
  "(npfloat list list \<Rightarrow> error + npfloat list list) \<Rightarrow> real list list \<Rightarrow> kwargs
     \<Rightarrow> (error + result) option" where
  "BTMLE_fit pinv alpha kw =
     (let (M, M') = shape alpha in
      if M \<noteq> M' then Some (Inl (AssertionError []))
      else if M = 0 then Some (Inl ZeroDivisionError)
      else
        (case BTMLE_loop alpha (BTMLE_p0 M) of
           None \<Rightarrow> None
         | Some (Inl e) \<Rightarrow> Some (Inl e)
         | Some (Inr p) \<Rightarrow>
             (case BTMLE_std pinv alpha p of
                Inl e \<Rightarrow> Some (Inl e)
              | Inr scores_std \<Rightarrow>
                  Some (Inr \<lparr>quality_scores = map np_log p,
                             quality_scores_std = Some scores_std\<rparr>))))"

definition BTMLE_run_modeling ::
  "(npfloat list list \<Rightarrow> error + npfloat list list) \<Rightarrow> dataset_reader \<Rightarrow> kwargs
     \<Rightarrow> (error + result) option" where
  "BTMLE_run_modeling pinv dataset_reader kw =
     BTMLE_fit pinv (np_nansum_axis2 (opinion_score_3darray dataset_reader)) kw"

subsection \<open>The fixed-point loop of BTMLE in binary64 arithmetic\<close>

text \<open>
  A second model of lines 205 to 218, for the statement about the sum of \<^verbatim>\<open>p\<close>, which
  depends on rounding. Every arithmetic operation returns the binary64 number nearest to
  its exact result, a tie going to the number whose significand is even (the default
  rounding of IEEE 754, 53 significant bits). The exponent range is not bounded: overflow
  to \<open>inf\<close> and underflow to subnormal numbers or to zero are not modelled.

  \<open>round_even x\<close> is the integer nearest to \<open>x\<close>, the even one on a tie. For \<open>x \<noteq> 0\<close>
  with \<open>2^e \<le> |x| < 2^(e+1)\<close> the binary64 numbers around \<open>x\<close> are the multiples of
  \<open>2^(e-52)\<close>, and \<open>fl64 x\<close> is the nearest of them; \<open>u64 = 2^-53\<close> is the unit roundoff.
  \<open>np_round\<close> rounds a number and keeps \<open>inf\<close>, \<open>-inf\<close> and \<open>nan\<close>; \<open>add64\<close>, \<open>sub64\<close>, \<open>mul64\<close>
  and \<open>div64\<close> are the four operations on doubles.
\<close>

definition round_even :: "real \<Rightarrow> int" where
  "round_even x =
     (let f = \<lfloor>x\<rfloor>; d = x - of_int f
      in if d < 1 / 2 then f else if 1 / 2 < d then f + 1 else if even f then f else f + 1)"

definition fl64 :: "real \<Rightarrow> real" where
  "fl64 x =
     (if x = 0 then 0
      else let ulp = 2 powr (of_int \<lfloor>log 2 \<bar>x\<bar>\<rfloor> - 52)
           in of_int (round_even (x / ulp)) * ulp)"

definition u64 :: real where
  "u64 = 1 / 2 ^ 53"

fun np_round :: "npfloat \<Rightarrow> npfloat" where
  "np_round (Fin r) = Fin (fl64 r)"
| "np_round PInf = PInf"
| "np_round NInf = NInf"
| "np_round NaN = NaN"

definition add64 :: "npfloat \<Rightarrow> npfloat \<Rightarrow> npfloat" where
  "add64 a b = np_round (np_add a b)"

definition sub64 :: "npfloat \<Rightarrow> npfloat \<Rightarrow> npfloat" where
  "sub64 a b = np_round (np_sub a b)"

definition mul64 :: "npfloat \<Rightarrow> npfloat \<Rightarrow> npfloat" where
  "mul64 a b = np_round (np_mul a b)"

definition div64 :: "npfloat \<Rightarrow> npfloat \<Rightarrow> npfloat" where
  "div64 a b = np_round (np_div a b)"

text \<open>\<^verbatim>\<open>np.sum\<close> of a vector is a parameter \<open>npsum\<close> of this model: numpy adds fewer than
  eight numbers one after the other from the left, starting from 0, which is \<open>seq_sum64\<close>,
  and sums a longer vector in blocks. The value of \<^verbatim>\<open>linalg.norm\<close> on a finite vector is a
  parameter \<open>nrm\<close>.\<close>

definition seq_sum64 :: "npfloat list \<Rightarrow> npfloat" where
  "seq_sum64 xs = foldl add64 (Fin 0) xs"

text \<open>Lines 213 to 216 (with \<^verbatim>\<open>n = alpha + alpha.T\<close> of line 202): the new \<^verbatim>\<open>p\<close> from the
  previous one.\<close>

definition BTMLE_update64 ::
  "(npfloat list \<Rightarrow> npfloat) \<Rightarrow> real list list \<Rightarrow> npfloat list \<Rightarrow> npfloat list" where
  "BTMLE_update64 npsum alpha p =
     (let M = length alpha;
          n = mm2 (\<lambda>a b. fl64 (a + b)) alpha (np_T alpha);
          pp = mm2 add64 (np_tile p M) (np_T (np_tile p M));
          p1 = map2 div64 (map (\<lambda>r. npsum (map Fin r)) alpha)
                          (map npsum (mm2 div64 (lift n) pp))
      in map (\<lambda>x. div64 x (npsum p1)) p1)"

text \<open>One pass through the loop body as far as \<^verbatim>\<open>linalg.norm\<close> accepting \<^verbatim>\<open>p - p_prev\<close>
  (it raises on a non-finite entry), and the whole pass with
  \<^verbatim>\<open>change = linalg.norm(p - p_prev)\<close>.\<close>

definition BTMLE_pass64 ::
  "(npfloat list \<Rightarrow> npfloat) \<Rightarrow> real list list \<Rightarrow> npfloat list \<Rightarrow> error + npfloat list" where
  "BTMLE_pass64 npsum alpha p_prev =
     (let p = BTMLE_update64 npsum alpha p_prev in
      if list_all is_fin (map2 sub64 p p_prev) then Inr p
      else Inl (ValueError ''array must not contain infs or NaNs''))"

definition BTMLE_body64 ::
  "(npfloat list \<Rightarrow> npfloat) \<Rightarrow> (real list \<Rightarrow> real) \<Rightarrow> real list list \<Rightarrow> npfloat list
     \<Rightarrow> error + npfloat list \<times> real" where
  "BTMLE_body64 npsum nrm alpha p_prev =
     (case BTMLE_pass64 npsum alpha p_prev of
        Inl e \<Rightarrow> Inl e
      | Inr p \<Rightarrow> Inr (p, nrm (map the_fin (map2 sub64 p p_prev))))"

text \<open>The loop; the literal \<^verbatim>\<open>1e-8\<close> is the double nearest to \<open>10^-8\<close>.\<close>

partial_function (option) BTMLE_loop64 ::
  "(npfloat list \<Rightarrow> npfloat) \<Rightarrow> (real list \<Rightarrow> real) \<Rightarrow> real list list \<Rightarrow> npfloat list
     \<Rightarrow> (error + npfloat list) option" where
  "BTMLE_loop64 npsum nrm alpha p_prev =
     (case BTMLE_body64 npsum nrm alpha p_prev of
        Inl e \<Rightarrow> Some (Inl e)
      | Inr pc \<Rightarrow>
          if snd pc > fl64 DELTA_THR then BTMLE_loop64 npsum nrm alpha (fst pc)
          else Some (Inr (fst pc)))"

text \<open>\<^verbatim>\<open>p = 1.0 / M * np.ones(M)\<close>\<close>

definition BTMLE_p0_64 :: "nat \<Rightarrow> npfloat list" where
  "BTMLE_p0_64 M = replicate M (mul64 (div64 (Fin 1) (Fin (real M))) (Fin 1))"

text \<open>The value of \<^verbatim>\<open>p\<close> after \<open>k\<close> passes through the loop body, whatever the
  convergence test says.\<close>

fun BTMLE_iterate64 ::
  "(npfloat list \<Rightarrow> npfloat) \<Rightarrow> real list list \<Rightarrow> nat \<Rightarrow> error + npfloat list" where
  "BTMLE_iterate64 npsum alpha 0 = Inr (BTMLE_p0_64 (length alpha))"
| "BTMLE_iterate64 npsum alpha (Suc k) =
     (case BTMLE_iterate64 npsum alpha k of
        Inl e \<Rightarrow> Inl e
      | Inr p \<Rightarrow> BTMLE_pass64 npsum alpha p)"

subsection \<open>Thurstone, maximum likelihood by numerical optimisation\<close>

text \<open>Lines 272 to 283. \<^verbatim>\<open>M\<close> is a Python integer, so \<^verbatim>\<open>1e-8 / M\<close> raises for
  \<open>M = 0\<close>; the optimiser calls the function with a vector of length \<open>M\<close> only.\<close>

definition log_likelihood_function ::
  "(real \<Rightarrow> real) \<Rightarrow> real list \<Rightarrow> real list list \<Rightarrow> nat \<Rightarrow> error + npfloat" where
  "log_likelihood_function cdf v alpha M =
     (if M = 0 then Inl ZeroDivisionError
      else if length v \<noteq> M then Inl (ValueError ''operands could not be broadcast together'')
      else
        (let epsilon = 1 / 10 ^ 8 / real M;
             D = mm2 (-) (np_tile v M) (np_T (np_tile v M));
             mtx = mm2 np_add
                     (mm2 np_mul (lift alpha)
                        (map (map (\<lambda>d. np_log (Fin (cdf d + epsilon)))) D))
                     (mm2 np_mul (lift (np_T alpha))
                        (map (map (\<lambda>d. np_log (Fin (1 - cdf d + epsilon)))) D))
         in Inr (np_sum (concat mtx))))"

record optimize_result =
  ret_success :: bool
  ret_x :: "npfloat list"

type_synonym minimizer =
  "(real list \<Rightarrow> error + npfloat) \<Rightarrow> real list \<Rightarrow> error + optimize_result"

text \<open>Lines 258 to 269.\<close>

definition Thurstone_fit ::
  "(real \<Rightarrow> real) \<Rightarrow> minimizer \<Rightarrow> real list list \<Rightarrow> kwargs \<Rightarrow> error + result" where
  "Thurstone_fit cdf minimize alpha kw =
     (let (M, M') = shape alpha in
      if M \<noteq> M' then Inl (AssertionError [])
      else
        (let llf_partial = (\<lambda>v. log_likelihood_function cdf v alpha M);
             v0 = replicate M 0
         in (case minimize llf_partial v0 of
               Inl e \<Rightarrow> Inl e
             | Inr ret \<Rightarrow>
                 if ret_success ret
                 then Inr \<lparr>quality_scores = ret_x ret, quality_scores_std = None\<rparr>
                 else Inl (AssertionError ''minimization is unsuccessful.''))))"

definition Thurstone_run_modeling ::
  "(real \<Rightarrow> real) \<Rightarrow> minimizer \<Rightarrow> dataset_reader \<Rightarrow> kwargs \<Rightarrow> error + result" where
  "Thurstone_run_modeling cdf minimize dataset_reader kw =
     Thurstone_fit cdf minimize (np_nansum_axis2 (opinion_score_3darray dataset_reader)) kw"

subsection \<open>Auxiliary definitions for the statements\<close>

text \<open>A rectangular array of \<open>r\<close> rows and \<open>c\<close> columns.\<close>

definition is_mat :: "'a list list \<Rightarrow> nat \<Rightarrow> nat \<Rightarrow> bool" where
  "is_mat A r c = (length A = r \<and> list_all (\<lambda>row. length row = c) A)"

text \<open>The standard normal distribution function, by its power series
  \<open>\<Phi>(x) = 1/2 + (1 / sqrt (2 \<pi>)) \<Sum>k. (-1)^k x^(2k+1) / (2^k k! (2k+1))\<close>;
  it stands for \<^verbatim>\<open>scipy.stats.norm.cdf\<close> at concrete inputs.\<close>

definition std_normal_cdf :: "real \<Rightarrow> real" where
  "std_normal_cdf x =
     1 / 2 + (1 / sqrt (2 * pi)) *
       (\<Sum>k. (- 1) ^ k * x ^ (2 * k + 1) / (2 ^ k * fact k * real (2 * k + 1)))"

text \<open>Stand-ins for the library routines at concrete inputs: an optimiser that reports a
  given result, one that reports the value of its objective at the start vector, the
  pseudo-inverse of a matrix with a single entry (the reciprocal, or 0 for 0), and a
  pseudo-inverse read from a table.\<close>

definition minimize_const :: "optimize_result \<Rightarrow> minimizer" where
  "minimize_const res f v0 = Inr res"

definition minimize_probe :: minimizer where
  "minimize_probe f v0 =
     (case f v0 of Inl e \<Rightarrow> Inl e | Inr val \<Rightarrow> Inr \<lparr>ret_success = True, ret_x = [val]\<rparr>)"

definition pinv_1x1 :: "real list list \<Rightarrow> real list list" where
  "pinv_1x1 A = map (map inverse) A"

definition pinv_table ::
  "(npfloat list list \<times> npfloat list list) list \<Rightarrow> npfloat list list
     \<Rightarrow> error + npfloat list list" where
  "pinv_table tab A = (case map_of tab A of Some X \<Rightarrow> Inr X | None \<Rightarrow> Inl LinAlgError)"

text \<open>What the solvers need of \<^verbatim>\<open>scipy.linalg.pinv\<close>: the pseudo-inverse of a square
  matrix has the shape of that matrix.\<close>

definition pinv_keeps_shape :: "(real list list \<Rightarrow> real list list) \<Rightarrow> bool" where
  "pinv_keeps_shape pinv = (\<forall>A k. is_mat A k k \<longrightarrow> is_mat (pinv A) k k)"

text \<open>The objective as the specification words it: minus the matrix-wide sum of
  \<open>alpha[i,j] * log (\<Phi>(v_i - v_j) + eps) + alpha[j,i] * log (1 - \<Phi>(v_i - v_j) + eps)\<close>
  with \<open>eps = 1e-8 / M\<close>.\<close>

definition spec_thurstone_objective ::
  "(real \<Rightarrow> real) \<Rightarrow> real list \<Rightarrow> real list list \<Rightarrow> nat \<Rightarrow> npfloat" where
  "spec_thurstone_objective cdf v alpha M =
     (let eps = 1 / 10 ^ 8 / real M in
      np_neg (np_sum (concat (mat_of M M (\<lambda>i j.
        np_add (np_mul (Fin (alpha ! i ! j)) (np_log (Fin (cdf (v ! i - v ! j) + eps))))
               (np_mul (Fin (alpha ! j ! i)) (np_log (Fin (1 - cdf (v ! i - v ! j) + eps)))))))))"

text \<open>Not negative: a non-negative number, \<open>inf\<close> or \<open>nan\<close>; and strictly positive (and so
  finite).\<close>

definition np_nonneg :: "npfloat \<Rightarrow> bool" where
  "np_nonneg x = (case x of Fin r \<Rightarrow> 0 \<le> r | PInf \<Rightarrow> True | NInf \<Rightarrow> False | NaN \<Rightarrow> True)"

definition np_pos :: "npfloat \<Rightarrow> bool" where
  "np_pos x = (case x of Fin r \<Rightarrow> 0 < r | PInf \<Rightarrow> False | NInf \<Rightarrow> False | NaN \<Rightarrow> False)"

text \<open>What the statements need of \<^verbatim>\<open>np.sum\<close> in binary64 arithmetic: the sum is a number
  exactly when every summand is, and the sum of \<open>n\<close> non-negative numbers differs from
  their exact sum \<open>S\<close> by the roundings of at most \<open>n\<close> additions, that is, it lies between
  \<open>(1 - u64)^n S\<close> and \<open>(1 + u64)^n S\<close>. It holds of every order in which the numbers may be
  added.\<close>

definition np_sum_contract :: "(npfloat list \<Rightarrow> npfloat) \<Rightarrow> bool" where
  "np_sum_contract npsum =
     (\<forall>xs. (is_fin (npsum xs) \<longleftrightarrow> list_all is_fin xs)
         \<and> (list_all (\<lambda>x. is_fin x \<and> np_nonneg x) xs \<longrightarrow>
              (1 - u64) ^ length xs * sum_list (map the_fin xs) \<le> the_fin (npsum xs)
            \<and> the_fin (npsum xs) \<le> (1 + u64) ^ length xs * sum_list (map the_fin xs)))"

text \<open>The entries of a vector of \<open>M\<close> doubles sum to 1 up to rounding: their exact sum
  lies between \<open>(1 - u64) / (1 + u64)^M\<close> and \<open>(1 + u64) / (1 - u64)^M\<close>.\<close>

definition sum_near_one :: "nat \<Rightarrow> npfloat list \<Rightarrow> bool" where
  "sum_near_one M p =
     (case np_sum p of
        Fin s \<Rightarrow> (1 - u64) / (1 + u64) ^ M \<le> s \<and> s \<le> (1 + u64) / (1 - u64) ^ M
      | _ \<Rightarrow> False)"

text \<open>The product of two matrices, to state that one is the inverse of the other.\<close>

definition matmul_mm :: "real list list \<Rightarrow> real list list \<Rightarrow> real list list" where
  "matmul_mm A B = map (\<lambda>r. map (\<lambda>c. sum_list (map2 (*) r c)) (np_T B)) A"

text \<open>The bordered matrix that BTMLE builds for the count matrix
  \<open>[[0, 32, 1], [32, 0, 1], [1, 1, 0]]\<close> at \<open>p = [1/3, 1/3, 1/3]\<close>, and its inverse.\<close>

definition B3 :: "real list list" where
  "B3 = [[297 / 2, - 192, - 6, 1],
         [- 192, 297 / 2, - 6, 1],
         [- 6, - 6, 9, 1],
         [1, 1, 1, 0]]"

definition B3inv :: "real list list" where
  "B3inv = [[- 226 / 681, - 76 / 227, 2 / 3, - 10],
            [- 76 / 227, - 226 / 681, 2 / 3, - 10],
            [2 / 3, 2 / 3, - 4 / 3, 21],
            [- 10, - 10, 21, - 309]]"

section \<open>Auxiliary lemmas\<close>

subsection \<open>Arrays\<close>

lemma length_mat_of [simp]: "length (mat_of r c f) = r"
  by (simp add: mat_of_def)

lemma nth_mat_of [simp]: "i < r \<Longrightarrow> mat_of r c f ! i = map (f i) [0..<c]"
  by (simp add: mat_of_def)

lemma mat_of_cong: "(\<And>i j. i < r \<Longrightarrow> j < c \<Longrightarrow> f i j = g i j) \<Longrightarrow> mat_of r c f = mat_of r c g"
  by (simp add: mat_of_def)

lemma shape_mat_of: "0 < r \<Longrightarrow> shape (mat_of r c f) = (r, c)"
  by (simp add: shape_def mat_of_def hd_map)

lemma mm2_mat_of [simp]:
  "mm2 h (mat_of r c f) (mat_of r c g) = mat_of r c (\<lambda>i j. h (f i j) (g i j))"
  by (simp add: mm2_def mat_of_def map2_map_map)

lemma map_map_mat_of [simp]: "map (map h) (mat_of r c f) = mat_of r c (\<lambda>i j. h (f i j))"
  by (simp add: mat_of_def)

lemma lift_mat_of [simp]: "lift (mat_of r c f) = mat_of r c (\<lambda>i j. Fin (f i j))"
  by (simp add: lift_def)

lemma np_T_mat_of [simp]: "0 < r \<Longrightarrow> np_T (mat_of r c f) = mat_of c r (\<lambda>i j. f j i)"
  by (auto simp: np_T_def shape_mat_of intro!: mat_of_cong)

lemma np_tile_mat_of: "np_tile v M = mat_of M (length v) (\<lambda>i j. v ! j)"
  by (simp add: np_tile_def mat_of_def map_nth map_replicate_const)

lemma take_upt0: "take k [0..<r] = [0..<min k r]"
  by (cases "k \<le> r") (simp_all add: min_def)

lemma take_mat_of [simp]: "take k (mat_of r c f) = mat_of (min k r) c f"
  by (simp add: mat_of_def take_map take_upt0)

lemma map_take_mat_of [simp]: "map (take k) (mat_of r c f) = mat_of r (min k c) f"
  by (simp add: mat_of_def take_map take_upt0)

lemma map_butlast_mat_of [simp]: "map butlast (mat_of r c f) = mat_of r (c - 1) f"
  by (cases c) (simp_all add: mat_of_def map_butlast [symmetric])

lemma masked_set_mat_of [simp]:
  "masked_set (mat_of r c m) (mat_of r c t) (mat_of r c v) =
     mat_of r c (\<lambda>i j. if m i j then v i j else t i j)"
  by (auto simp: masked_set_def intro!: mat_of_cong)

lemma np_diag_mat_of: "np_diag z v = mat_of (length v) (length v) (\<lambda>i j. if i = j then v ! i else z)"
  by (simp add: np_diag_def)

lemma is_mat_eq_mat_of: "is_mat A r c \<Longrightarrow> A = mat_of r c (\<lambda>i j. A ! i ! j)"
proof -
  assume a: "is_mat A r c"
  have "map (\<lambda>i. map (\<lambda>j. A ! i ! j) [0..<c]) [0..<length A] = map (\<lambda>i. A ! i) [0..<length A]"
  proof (rule map_cong [OF refl])
    fix i assume "i \<in> set [0..<length A]"
    with a have "length (A ! i) = c" by (simp add: is_mat_def list_all_length)
    then show "map (\<lambda>j. A ! i ! j) [0..<c] = A ! i" using map_nth [of "A ! i"] by simp
  qed
  moreover have "map (\<lambda>i. A ! i) [0..<length A] = A" by (rule map_nth)
  ultimately show ?thesis using a by (simp add: mat_of_def is_mat_def)
qed

lemma map_sum_mat_of: "map g (mat_of r c f) = map (\<lambda>i. g (map (f i) [0..<c])) [0..<r]"
  by (simp add: mat_of_def)

lemma replicate_mat_of: "replicate r (replicate c z) = mat_of r c (\<lambda>i j. z)"
  by (simp add: mat_of_def map_replicate_const)

subsection \<open>The shape check and the optimiser's flag\<close>

lemma BTNR_fit_non_square:
  "shape wm = (n, m) \<Longrightarrow> n \<noteq> m \<Longrightarrow> BTNR_fit pinv wm kw = Some (Inl (AssertionError []))"
  by (simp add: BTNR_fit_def BTNR_scores_def)

lemma BTMLE_fit_non_square:
  "shape alpha = (n, m) \<Longrightarrow> n \<noteq> m \<Longrightarrow> BTMLE_fit pinv alpha kw = Some (Inl (AssertionError []))"
  by (simp add: BTMLE_fit_def)

lemma Thurstone_fit_non_square:
  "shape alpha = (n, m) \<Longrightarrow> n \<noteq> m \<Longrightarrow> Thurstone_fit cdf minimize alpha kw = Inl (AssertionError [])"
  by (simp add: Thurstone_fit_def)

lemma Thurstone_fit_square:
  assumes "shape alpha = (M, M)"
    and "minimize (\<lambda>v. log_likelihood_function cdf v alpha M) (replicate M 0) = Inr ret"
  shows "Thurstone_fit cdf minimize alpha kw =
          (if ret_success ret then Inr \<lparr>quality_scores = ret_x ret, quality_scores_std = None\<rparr>
           else Inl (AssertionError ''minimization is unsuccessful.''))"
  using assms by (simp add: Thurstone_fit_def)

subsection \<open>The Newton-Raphson loop\<close>

lemma is_mat_mat_of [simp]: "is_mat (mat_of r c f) r c"
  by (simp add: is_mat_def mat_of_def list_all_iff)

lemma last_map2:
  "length xs = length ys \<Longrightarrow> xs \<noteq> [] \<Longrightarrow> last (map2 f xs ys) = f (last xs) (last ys)"
  by (induction xs ys rule: list_induct2) auto

lemma np_isub_last:
  assumes "np_isub g (c @ [0]) = Inr g'" and "g \<noteq> []" and "last g = 0"
  shows "length g' = length g \<and> last g' = 0"
proof (cases "length (c @ [0]) = length g")
  case True
  with assms have "g' = map2 (-) g (c @ [0])" by (simp add: np_isub_def)
  with True assms show ?thesis by (simp add: last_map2)
next
  case False
  with assms have l: "length (c @ [0]) = 1" and g': "g' = map (\<lambda>x. x - hd (c @ [0])) g"
    by (auto simp: np_isub_def split: if_splits)
  from l have "c = []" by simp
  with g' assms show ?thesis by (simp add: last_map)
qed

lemma BTNR_body_gamma:
  assumes "BTNR_body pinv wm st = Inr st'" and "st_gamma st \<noteq> []" and "last (st_gamma st) = 0"
  shows "length (st_gamma st') = length (st_gamma st) \<and> last (st_gamma st') = 0"
proof -
  from assms(1) obtain c g' where "np_isub (st_gamma st) (c @ [0]) = Inr g'" and "st_gamma st' = g'"
    by (auto simp: BTNR_body_def Let_def split: sum.splits)
  with np_isub_last [OF _ assms(2,3)] show ?thesis by simp
qed

lemma BTNR_loop_gamma_aux:
  assumes "BTNR_loop pinv wm st = Some y"
  shows "\<forall>st'. y = Inr st' \<longrightarrow> st_gamma st \<noteq> [] \<longrightarrow> last (st_gamma st) = 0 \<longrightarrow>
       length (st_gamma st') = length (st_gamma st) \<and> last (st_gamma st') = 0"
proof (rule BTNR_loop.raw_induct
    [where P = "\<lambda>pinv wm st y. \<forall>st'. y = Inr st' \<longrightarrow> st_gamma st \<noteq> [] \<longrightarrow>
       last (st_gamma st) = 0 \<longrightarrow>
       length (st_gamma st') = length (st_gamma st) \<and> last (st_gamma st') = 0", OF _ assms])
  fix loop :: "(real list list \<Rightarrow> real list list) \<Rightarrow> real list list \<Rightarrow> btnr_state
      \<Rightarrow> (error + btnr_state) option"
  fix pinv wm st y
  assume IH: "\<And>pinv wm st y. loop pinv wm st = Some y \<Longrightarrow>
      \<forall>st'. y = Inr st' \<longrightarrow> st_gamma st \<noteq> [] \<longrightarrow> last (st_gamma st) = 0 \<longrightarrow>
        length (st_gamma st') = length (st_gamma st) \<and> last (st_gamma st') = 0"
  assume step: "(case BTNR_body pinv wm st of Inl e \<Rightarrow> Some (Inl e)
      | Inr st' \<Rightarrow> if DELTA_THR < linalg_norm (st_change st') then loop pinv wm st'
          else Some (Inr st')) = Some y"
  show "\<forall>st'. y = Inr st' \<longrightarrow> st_gamma st \<noteq> [] \<longrightarrow> last (st_gamma st) = 0 \<longrightarrow>
       length (st_gamma st') = length (st_gamma st) \<and> last (st_gamma st') = 0"
  proof (intro allI impI)
    fix st' assume y: "y = Inr st'" and ne: "st_gamma st \<noteq> []" and l: "last (st_gamma st) = 0"
    from step y obtain st1 where b: "BTNR_body pinv wm st = Inr st1"
      by (cases "BTNR_body pinv wm st") auto
    from BTNR_body_gamma [OF b ne l]
    have g1: "length (st_gamma st1) = length (st_gamma st)" "last (st_gamma st1) = 0" by simp_all
    with ne have ne1: "st_gamma st1 \<noteq> []" by auto
    show "length (st_gamma st') = length (st_gamma st) \<and> last (st_gamma st') = 0"
    proof (cases "DELTA_THR < linalg_norm (st_change st1)")
      case True
      with step b y have "loop pinv wm st1 = Some (Inr st')" by simp
      from IH [OF this] ne1 g1 show ?thesis by simp
    next
      case False
      with step b y have "st' = st1" by simp
      with g1 show ?thesis by simp
    qed
  qed
qed

lemma BTNR_loop_gamma:
  assumes "BTNR_loop pinv wm st = Some (Inr st')"
    and "st_gamma st \<noteq> []" and "last (st_gamma st) = 0"
  shows "length (st_gamma st') = length (st_gamma st) \<and> last (st_gamma st') = 0"
  using BTNR_loop_gamma_aux [OF assms(1)] assms(2,3) by simp

lemma BTNR_scores_gamma:
  assumes "BTNR_scores pinv wm = Some (Inr ss)"
  shows "\<exists>st0 st. BTNR_init wm = Inr st0 \<and> BTNR_loop pinv wm st0 = Some (Inr st)
           \<and> ss = st_gamma st \<and> length ss = length wm \<and> ss \<noteq> [] \<and> last ss = 0"
proof -
  from assms obtain st0 st where i: "BTNR_init wm = Inr st0"
    and lp: "BTNR_loop pinv wm st0 = Some (Inr st)"
    and ss: "ss = list_update (st_gamma st) (length (st_gamma st) - 1) 0"
    by (auto simp: BTNR_scores_def Let_def split: prod.splits if_splits sum.splits option.splits)
  from i have g0: "st_gamma st0 = replicate (length wm) 0" and n: "length wm \<noteq> 0"
    by (auto simp: BTNR_init_def Let_def split: if_splits)
  then have "st_gamma st0 \<noteq> []" "last (st_gamma st0) = 0" by auto
  from BTNR_loop_gamma [OF lp this] g0
  have l: "length (st_gamma st) = length wm" "last (st_gamma st) = 0" by simp_all
  with n have ne: "st_gamma st \<noteq> []" by auto
  with l have "list_update (st_gamma st) (length (st_gamma st) - 1) 0 = st_gamma st"
    by (metis last_conv_nth list_update_id)
  with ss i lp l ne show ?thesis by auto
qed

lemma gm_of_mat_of:
  "0 < n \<Longrightarrow> gm_of (mat_of n n w) = mat_of (n - 1) n (\<lambda>i j. w i j + w j i)"
  by (simp add: gm_of_def Let_def)

lemma wins_of_mat_of:
  "wins_of (mat_of n n w) = map (\<lambda>i. sum_list (map (w i) [0..<n])) [0..<n - 1]"
  by (simp add: wins_of_def mat_of_def take_map take_upt0)

lemma gind_of_mat_of:
  "0 < n \<Longrightarrow> gind_of (mat_of n n w) = mat_of (n - 1) n (\<lambda>i j. 0 < w i j + w j i)"
  by (simp add: gind_of_def gm_of_mat_of)

lemma sum_list_mult_zeros: "sum_list (map2 (*) r (replicate k (0::real))) = 0"
proof (induction r arbitrary: k)
  case Nil
  show ?case by simp
next
  case (Cons a r)
  show ?case by (cases k) (simp_all add: Cons.IH)
qed

lemma np_matmul_zero:
  "list_all (\<lambda>r. length r = k) A \<Longrightarrow> np_matmul A (replicate k 0) = Inr (replicate (length A) 0)"
  by (simp add: np_matmul_def sum_list_mult_zeros map_replicate_const)

lemma np_isub_zeros: "np_isub (replicate n 0) (replicate n 0) = Inr (replicate n 0)"
  by (simp add: np_isub_def map2_map_map [where f = id and g = id, simplified] list_eq_iff_nth_eq)

lemma BTNR_body_symmetric:
  assumes n: "0 < n"
    and sym: "\<And>i j. i < n \<Longrightarrow> j < n \<Longrightarrow> w i j = w j i"
    and nn: "\<And>i j. i < n \<Longrightarrow> j < n \<Longrightarrow> 0 \<le> w i j"
    and ps: "pinv_keeps_shape pinv"
    and st: "st_gamma st = replicate n 0" "st_rus st = mat_of (n - 1) n (\<lambda>i j. 0)"
      "st_y st = mat_of (n - 1) n (\<lambda>i j. 0)"
  shows "\<exists>st'. BTNR_body pinv (mat_of n n w) st = Inr st'
           \<and> st_gamma st' = replicate n 0 \<and> st_change st' = replicate n 0"
proof -
  define wm where "wm = mat_of n n w"
  define nmo where "nmo = length wm - 1"
  define gind where "gind = gind_of wm"
  define pius0 where "pius0 = np_T (np_tile (map exp (st_gamma st)) (length wm))"
  define piust where "piust = np_T (map (take nmo) pius0)"
  define pius where "pius = take nmo pius0"
  define rus where "rus = masked_set gind (st_rus st) (mm2 (/) pius (mm2 (+) pius piust))"
  define y1 where "y1 = masked_set gind (st_y st) (mm2 (*) (gm_of wm) rus)"
  define dL where "dL = map2 (+) (wins_of wm) (map (\<lambda>r. - sum_list r) y1)"
  define y2 where "y2 = masked_set gind y1 (mm2 (*) y1 (map (map (\<lambda>r. 1 - r)) rus))"
  define d2L where "d2L = masked_set (map (take nmo) gind)
      (map (map uminus) (np_diag 0 (map sum_list y2))) (map butlast y2)"
  have body: "BTNR_body pinv wm st =
      (case np_matmul (pinv d2L) dL of
         Inl e \<Rightarrow> Inl e
       | Inr c \<Rightarrow>
           (case np_isub (st_gamma st) (c @ [0]) of
              Inl e \<Rightarrow> Inl e
            | Inr gamma \<Rightarrow>
                Inr \<lparr>st_gamma = gamma, st_rus = rus, st_y = y2,
                     st_iteration = st_iteration st + 1, st_change = c @ [0]\<rparr>))"
    unfolding BTNR_body_def Let_def d2L_def y2_def dL_def y1_def rus_def pius_def piust_def
      pius0_def gind_def nmo_def
    by (rule refl)
  define G where "G = (\<lambda>i j. 0 < w i j + w j i)"
  have nmo: "nmo = n - 1" by (simp add: nmo_def wm_def)
  have gind: "gind = mat_of (n - 1) n G"
    using n by (simp add: gind_def wm_def gind_of_mat_of G_def)
  have pius0: "pius0 = mat_of n n (\<lambda>i j. 1)"
    using n by (simp add: pius0_def wm_def st(1) np_tile_def replicate_mat_of)
  have rus: "rus = mat_of (n - 1) n (\<lambda>i j. if G i j then 1 / 2 else 0)"
    using n by (auto simp: rus_def gind st(2) pius_def piust_def pius0 nmo intro!: mat_of_cong)
  have y1: "y1 = mat_of (n - 1) n (\<lambda>i j. if G i j then (w i j + w j i) / 2 else 0)"
    using n by (auto simp: y1_def gind st(3) rus wm_def gm_of_mat_of intro!: mat_of_cong)
  have row: "map (\<lambda>j. if G i j then (w i j + w j i) / 2 else 0) [0..<n] = map (w i) [0..<n]"
    if "i < n - 1" for i
  proof (rule map_cong [OF refl])
    fix j assume "j \<in> set [0..<n]"
    then have j: "j < n" by simp
    from that have i: "i < n" by simp
    from sym [OF i j] nn [OF i j] show "(if G i j then (w i j + w j i) / 2 else 0) = w i j"
      by (simp add: G_def)
  qed
  have d2Q: "map (\<lambda>r. - sum_list r) y1 = map (\<lambda>i. - sum_list (map (w i) [0..<n])) [0..<n - 1]"
    by (simp add: y1 mat_of_def row cong: map_cong)
  have dL: "dL = replicate nmo 0"
    unfolding dL_def d2Q wm_def wins_of_mat_of nmo by (simp add: map2_map_map map_replicate_const)
  have y2: "is_mat y2 (n - 1) n"
    by (simp add: y2_def gind y1 rus)
  have "is_mat d2L nmo nmo"
  proof -
    from y2 have "y2 = mat_of (n - 1) n (\<lambda>i j. y2 ! i ! j)" by (rule is_mat_eq_mat_of)
    then obtain f where "y2 = mat_of (n - 1) n f" ..
    then show ?thesis by (simp add: d2L_def gind nmo np_diag_mat_of)
  qed
  with ps have "is_mat (pinv d2L) nmo nmo" by (simp add: pinv_keeps_shape_def)
  then have mm: "np_matmul (pinv d2L) (replicate nmo 0) = Inr (replicate nmo 0)"
    using np_matmul_zero [of nmo "pinv d2L"] by (simp add: is_mat_def)
  have app: "replicate nmo (0::real) @ [0] = replicate n 0"
    using n by (simp add: nmo replicate_append_same) (metis Suc_pred replicate_Suc)
  show ?thesis
    unfolding wm_def [symmetric] body dL mm by (simp add: app st(1) np_isub_zeros)
qed

lemma linalg_norm_zeros: "linalg_norm (replicate n 0) = 0"
  by (simp add: linalg_norm_def sum_list_replicate)

lemma shape_square: "is_mat A n n \<Longrightarrow> shape A = (n, n)"
  by (cases A) (auto simp: shape_def is_mat_def)

lemma BTNR_scores_symmetric:
  assumes m: "is_mat wm n n" and n: "0 < n"
    and sym: "\<forall>i<n. \<forall>j<n. wm ! i ! j = wm ! j ! i"
    and nn: "\<forall>i<n. \<forall>j<n. 0 \<le> wm ! i ! j"
    and ps: "pinv_keeps_shape pinv"
  shows "BTNR_scores pinv wm = Some (Inr (replicate n 0))"
proof -
  define w where "w = (\<lambda>i j. wm ! i ! j)"
  from m have wm: "wm = mat_of n n w" unfolding w_def by (rule is_mat_eq_mat_of)
  define st0 where "st0 = \<lparr>st_gamma = replicate n (0::real),
      st_rus = replicate (n - 1) (replicate n (0::real)),
      st_y = replicate (n - 1) (replicate n (0::real)), st_iteration = 0, st_change = []\<rparr>"
  from m n have init: "BTNR_init wm = Inr st0"
    by (simp add: BTNR_init_def Let_def st0_def is_mat_def)
  have "\<exists>st'. BTNR_body pinv (mat_of n n w) st0 = Inr st'
           \<and> st_gamma st' = replicate n 0 \<and> st_change st' = replicate n 0"
    using sym nn by (intro BTNR_body_symmetric [OF n _ _ ps]) (simp_all add: st0_def w_def replicate_mat_of)
  then obtain st' where b: "BTNR_body pinv wm st0 = Inr st'"
    and g: "st_gamma st' = replicate n 0" and c: "st_change st' = replicate n 0"
    unfolding wm [symmetric] by blast
  have lp: "BTNR_loop pinv wm st0 = Some (Inr st')"
    by (subst BTNR_loop.simps) (simp add: b c linalg_norm_zeros DELTA_THR_def)
  have upd: "list_update (replicate n (0::real)) (n - Suc 0) 0 = replicate n 0"
    by (rule list_update_same_conv [THEN iffD2]) (use n in simp_all)
  from n show ?thesis
    by (simp add: BTNR_scores_def shape_square [OF m] init lp g upd)
qed

lemma pinv_1x1_keeps_shape: "pinv_keeps_shape pinv_1x1"
  by (simp add: pinv_keeps_shape_def pinv_1x1_def is_mat_def list_all_iff)

lemma BTNR_scores_example:
  "BTNR_scores pinv_1x1 [[0, 3], [3, 0]] = Some (Inr [0, 0])"
proof -
  have "BTNR_scores pinv_1x1 [[0, 3], [3, 0]] = Some (Inr (replicate 2 0))"
    by (rule BTNR_scores_symmetric [OF _ _ _ _ pinv_1x1_keeps_shape])
      (simp_all add: is_mat_def less_Suc_eq numeral_2_eq_2)
  then show ?thesis by (simp add: numeral_2_eq_2)
qed

subsection \<open>The Thurstone objective\<close>

lemma std_normal_cdf_0: "std_normal_cdf 0 = 1 / 2"
  by (simp add: std_normal_cdf_def)

lemma log_likelihood_function_index_form:
  assumes "is_mat alpha M M" and "length v = M" and "0 < M"
  shows "log_likelihood_function cdf v alpha M =
     Inr (np_sum (concat (mat_of M M (\<lambda>i j.
        np_add (np_mul (Fin (alpha ! i ! j)) (np_log (Fin (cdf (v ! j - v ! i) + 1 / 10 ^ 8 / real M))))
               (np_mul (Fin (alpha ! j ! i)) (np_log (Fin (1 - cdf (v ! j - v ! i) + 1 / 10 ^ 8 / real M))))))))"
proof -
  from assms(1) have a: "alpha = mat_of M M (\<lambda>i j. alpha ! i ! j)" by (rule is_mat_eq_mat_of)
  have h: "log_likelihood_function cdf v (mat_of M M (\<lambda>i j. alpha ! i ! j)) M =
     Inr (np_sum (concat (mat_of M M (\<lambda>i j.
        np_add (np_mul (Fin (alpha ! i ! j)) (np_log (Fin (cdf (v ! j - v ! i) + 1 / 10 ^ 8 / real M))))
               (np_mul (Fin (alpha ! j ! i)) (np_log (Fin (1 - cdf (v ! j - v ! i) + 1 / 10 ^ 8 / real M))))))))"
    using assms(2,3) by (simp add: log_likelihood_function_def Let_def np_tile_mat_of)
  show ?thesis by (subst a) (rule h)
qed

lemma log_likelihood_function_example:
  assumes "cdf 0 = 1 / 2"
  shows "log_likelihood_function cdf [0, 0] [[0, 1], [0, 0]] 2
           = Inr (Fin (2 * ln (1 / 2 + 1 / (2 * 10 ^ 8))))"
  by (simp add: assms log_likelihood_function_def Let_def np_tile_def np_T_def shape_def
      mat_of_def mm2_def lift_def np_sum_def numeral_2_eq_2)

lemma spec_thurstone_objective_example:
  assumes "cdf 0 = 1 / 2"
  shows "spec_thurstone_objective cdf [0, 0] [[0, 1], [0, 0]] 2
           = Fin (- 2 * ln (1 / 2 + 1 / (2 * 10 ^ 8)))"
  by (simp add: assms spec_thurstone_objective_def Let_def mat_of_def np_sum_def numeral_2_eq_2)

lemma ln_half_eps_neg: "2 * ln (1 / 2 + 1 / (2 * 10 ^ 8) :: real) < 0"
  by (simp add: ln_less_zero_iff)

subsection \<open>Finite, non-negative and positive numbers\<close>

lemma is_fin_iff: "is_fin x \<longleftrightarrow> (\<exists>r. x = Fin r)"
  by (cases x) simp_all

lemma Fin_the_fin: "is_fin x \<Longrightarrow> Fin (the_fin x) = x"
  by (cases x) simp_all

lemma is_fin_np_add: "is_fin (np_add a b) \<longleftrightarrow> is_fin a \<and> is_fin b"
  by (cases a; cases b) simp_all

lemma is_fin_np_div: "is_fin (np_div a b) \<Longrightarrow> is_fin a \<and> b \<noteq> Fin 0"
  by (cases a; cases b) (auto split: if_splits)

lemma np_sum_Nil [simp]: "np_sum [] = Fin 0"
  by (simp add: np_sum_def)

lemma np_sum_Cons [simp]: "np_sum (x # xs) = np_add x (np_sum xs)"
  by (simp add: np_sum_def)

lemma np_sum_map_Fin: "np_sum (map Fin xs) = Fin (sum_list xs)"
  by (induction xs) simp_all

lemma map_Fin_the_fin: "list_all is_fin xs \<Longrightarrow> map Fin (map the_fin xs) = xs"
  by (induction xs) (simp_all add: Fin_the_fin)

lemma np_nonneg_add: "np_nonneg a \<Longrightarrow> np_nonneg b \<Longrightarrow> np_nonneg (np_add a b)"
  by (cases a; cases b) (simp_all add: np_nonneg_def)

lemma np_pos_iff: "np_pos x \<longleftrightarrow> (\<exists>r. x = Fin r \<and> 0 < r)"
  by (cases x) (simp_all add: np_pos_def)

lemma np_pos_imp: "np_pos x \<Longrightarrow> is_fin x \<and> np_nonneg x"
  by (cases x) (simp_all add: np_pos_def np_nonneg_def)

lemma np_pos_add: "np_pos a \<Longrightarrow> np_pos b \<Longrightarrow> np_pos (np_add a b)"
  by (auto simp: np_pos_iff)

lemma np_pos_div: "np_pos a \<Longrightarrow> np_pos b \<Longrightarrow> np_pos (np_div a b)"
  by (auto simp: np_pos_iff)

lemma np_div_Fin_pos:
  "0 \<le> n \<Longrightarrow> np_pos b \<Longrightarrow> is_fin (np_div (Fin n) b) \<and> np_nonneg (np_div (Fin n) b)
     \<and> (0 < n \<longrightarrow> np_pos (np_div (Fin n) b))"
  by (auto simp: np_pos_iff np_nonneg_def)

lemma np_sum_fin_nonneg:
  "list_all (\<lambda>x. is_fin x \<and> np_nonneg x) xs \<Longrightarrow> is_fin (np_sum xs) \<and> np_nonneg (np_sum xs)"
  by (induction xs) (auto simp: is_fin_iff np_nonneg_def)

lemma np_sum_pos_member:
  "list_all (\<lambda>x. is_fin x \<and> np_nonneg x) xs \<Longrightarrow> \<exists>x\<in>set xs. np_pos x \<Longrightarrow> np_pos (np_sum xs)"
proof (induction xs)
  case Nil
  then show ?case by simp
next
  case (Cons x xs)
  from Cons.prems(1) have x: "is_fin x" "np_nonneg x" and xs: "list_all (\<lambda>x. is_fin x \<and> np_nonneg x) xs"
    by simp_all
  from np_sum_fin_nonneg [OF xs] obtain s where s: "np_sum xs = Fin s" "0 \<le> s"
    by (auto simp: is_fin_iff np_nonneg_def)
  from x obtain r where r: "x = Fin r" "0 \<le> r" by (auto simp: is_fin_iff np_nonneg_def)
  show ?case
  proof (cases "np_pos x")
    case True
    with r s show ?thesis by (simp add: np_pos_iff)
  next
    case False
    with Cons.prems(2) have "\<exists>x\<in>set xs. np_pos x" by auto
    from Cons.IH [OF xs this] r s show ?thesis by (auto simp: np_pos_iff)
  qed
qed

lemma list_all_map_upt: "list_all P (map f [0..<M]) \<longleftrightarrow> (\<forall>i<M. P (f i))"
  by (auto simp: list_all_iff)

lemma list_all_map2_same_length:
  "length xs = length ys \<Longrightarrow> list_all P (map2 f xs ys) \<longleftrightarrow> (\<forall>i<length xs. P (f (xs ! i) (ys ! i)))"
  by (auto simp: list_all_length)

lemma exists_positive_entry:
  assumes "0 < sum_list (map f [0..<M])" shows "\<exists>j<M. 0 < (f j :: real)"
proof (rule ccontr)
  assume neg: "\<not> (\<exists>j<M. 0 < f j)"
  have "x \<le> 0" if "x \<in> set (map f [0..<M])" for x
  proof -
    from that obtain j where "j < M" and "x = f j" by auto
    with neg show ?thesis by (meson not_less)
  qed
  then have "sum_list (map f [0..<M]) \<le> 0" by (rule sum_list_nonpos)
  with assms show False by simp
qed

subsection \<open>Rounding to binary64\<close>

lemma round_even_error: "\<bar>of_int (round_even x) - x\<bar> \<le> 1 / 2"
proof -
  have "of_int \<lfloor>x\<rfloor> \<le> x" "x < of_int \<lfloor>x\<rfloor> + 1" by linarith+
  then show ?thesis by (auto simp: round_even_def Let_def)
qed

lemma round_even_unique:
  assumes "\<bar>x - of_int m\<bar> < 1 / 2" shows "round_even x = m"
proof -
  have f: "of_int \<lfloor>x\<rfloor> \<le> x" "x < of_int \<lfloor>x\<rfloor> + 1" by linarith+
  from round_even_error [of x] assms have "\<bar>real_of_int (round_even x) - of_int m\<bar> < 1" by linarith
  then have "\<bar>round_even x - m\<bar> < 1" by (metis of_int_diff of_int_abs of_int_less_1_iff)
  then show ?thesis by simp
qed

lemma fl64_zero [simp]: "fl64 0 = 0"
  by (simp add: fl64_def)

lemma fl64_scaled:
  assumes x: "0 < x" and e: "2 powr of_int e \<le> x" "x < 2 powr (of_int e + 1)"
  shows "fl64 x = of_int (round_even (x / 2 powr (of_int e - 52))) * 2 powr (of_int e - 52)"
proof -
  from x e have "\<lfloor>log 2 x\<rfloor> = e" by (simp add: floor_log_eq_powr_iff)
  with x show ?thesis by (simp add: fl64_def Let_def)
qed

lemma fl64_bounds:
  assumes "0 < x"
  shows "(1 - u64) * x \<le> fl64 x" and "fl64 x \<le> (1 + u64) * x" and "0 < fl64 x"
proof -
  define e where "e = \<lfloor>log 2 x\<rfloor>"
  from assms have e: "2 powr of_int e \<le> x" "x < 2 powr (of_int e + 1)"
    using floor_log_eq_powr_iff [of x 2 e] by (simp_all add: e_def)
  define ulp :: real where "ulp = 2 powr (of_int e - 52)"
  have ulp: "0 < ulp" by (simp add: ulp_def)
  have fl: "fl64 x = of_int (round_even (x / ulp)) * ulp"
    unfolding ulp_def by (rule fl64_scaled [OF assms e])
  have "\<bar>of_int (round_even (x / ulp)) - x / ulp\<bar> \<le> 1 / 2" by (rule round_even_error)
  then have "\<bar>of_int (round_even (x / ulp)) * ulp - x\<bar> \<le> ulp / 2"
    using ulp by (simp add: field_simps abs_le_iff)
  then have err: "\<bar>fl64 x - x\<bar> \<le> ulp / 2" by (simp add: fl)
  have "ulp = 2 powr of_int e / 2 ^ 52"
    by (simp add: ulp_def powr_diff powr_realpow [symmetric])
  with e(1) have u: "ulp / 2 \<le> u64 * x" by (simp add: u64_def field_simps)
  from err u have err': "\<bar>fl64 x - x\<bar> \<le> u64 * x" by linarith
  from err' have b: "x - u64 * x \<le> fl64 x" "fl64 x \<le> x + u64 * x" by linarith+
  from b(1) show lo: "(1 - u64) * x \<le> fl64 x" by (simp add: algebra_simps)
  from b(2) show "fl64 x \<le> (1 + u64) * x" by (simp add: algebra_simps)
  have "u64 < 1" by (simp add: u64_def)
  with assms have "0 < (1 - u64) * x" by simp
  with lo show "0 < fl64 x" by linarith
qed

lemma u64_bounds: "0 < u64" "u64 < 1"
  by (simp_all add: u64_def)

lemma fl64_nonneg:
  assumes "0 \<le> x"
  shows "(1 - u64) * x \<le> fl64 x" and "fl64 x \<le> (1 + u64) * x" and "0 \<le> fl64 x"
proof -
  show "(1 - u64) * x \<le> fl64 x"
    using fl64_bounds(1) [of x] assms by (cases "x = 0") simp_all
  show "fl64 x \<le> (1 + u64) * x"
    using fl64_bounds(2) [of x] assms by (cases "x = 0") simp_all
  show "0 \<le> fl64 x"
    using fl64_bounds(3) [of x] assms by (cases "x = 0") simp_all
qed

lemma round_even_tie: "round_even (of_int f + 1 / 2) = (if even f then f else f + 1)"
proof -
  have "\<lfloor>of_int f + (1 / 2 :: real)\<rfloor> = f" by linarith
  then show ?thesis by (simp add: round_even_def Let_def)
qed

lemma fl64_scaled_nat:
  assumes "2 ^ 52 \<le> x * 2 ^ k" and "x * 2 ^ k < 2 ^ 53"
  shows "fl64 x = of_int (round_even (x * 2 ^ k)) / 2 ^ k"
proof -
  have p: "(0::real) < 2 ^ k" by simp
  from assms(1) have "0 < x * 2 ^ k" by (rule less_le_trans [rotated]) simp
  with p have x: "0 < x" by (simp add: zero_less_mult_iff)
  have e1: "2 powr of_int (52 - int k) = (2 ^ 52 / 2 ^ k :: real)"
    by (simp add: powr_diff powr_realpow [symmetric])
  have e2: "2 powr (of_int (52 - int k) + 1) = (2 ^ 53 / 2 ^ k :: real)"
    by (simp add: powr_diff powr_add powr_realpow [symmetric])
  have e3: "2 powr (of_int (52 - int k) - 52) = (1 / 2 ^ k :: real)"
    by (simp add: powr_minus powr_realpow [symmetric] divide_inverse)
  from assms(1) p have l: "2 powr of_int (52 - int k) \<le> x"
    unfolding e1 by (simp add: field_simps)
  from assms(2) p have u: "x < 2 powr (of_int (52 - int k) + 1)"
    unfolding e2 by (simp add: field_simps)
  from fl64_scaled [OF x l u] show ?thesis unfolding e3 by simp
qed

lemma fl64_eval:
  assumes "2 ^ 52 \<le> x * 2 ^ k" and "x * 2 ^ k < 2 ^ 53"
    and "c * 2 ^ k = of_int m" and "\<bar>x - c\<bar> * 2 ^ k < 1 / 2"
  shows "fl64 x = c"
proof -
  have "\<bar>x * 2 ^ k - of_int m\<bar> = \<bar>x - c\<bar> * 2 ^ k"
    unfolding assms(3) [symmetric] by (simp add: abs_mult left_diff_distrib [symmetric])
  with assms(4) have "round_even (x * 2 ^ k) = m" by (intro round_even_unique) simp
  with fl64_scaled_nat [OF assms(1,2)] have "fl64 x = of_int m / 2 ^ k" by simp
  also have "\<dots> = c" unfolding assms(3) [symmetric] by simp
  finally show ?thesis .
qed

lemma fl64_eval_tie:
  assumes "2 ^ 52 \<le> x * 2 ^ k" and "x * 2 ^ k < 2 ^ 53"
    and "x * 2 ^ k = of_int f + 1 / 2"
    and "c * 2 ^ k = of_int m" and "m = (if even f then f else f + 1)"
  shows "fl64 x = c"
proof -
  have "round_even (x * 2 ^ k) = m" unfolding assms(3) round_even_tie assms(5) ..
  with fl64_scaled_nat [OF assms(1,2)] have "fl64 x = of_int m / 2 ^ k" by simp
  also have "\<dots> = c" unfolding assms(4) [symmetric] by simp
  finally show ?thesis .
qed

lemma fl64_one: "fl64 1 = 1"
  by (rule fl64_eval [where k = 52 and m = 4503599627370496]) simp_all

lemma fl64_two: "fl64 2 = 2"
  by (rule fl64_eval [where k = 51 and m = 4503599627370496]) simp_all

subsection \<open>The fixed-point loop in binary64 arithmetic\<close>

lemma is_fin_np_round [simp]: "is_fin (np_round x) = is_fin x"
  by (cases x) simp_all

lemma np_round_nonneg: "np_nonneg x \<Longrightarrow> np_nonneg (np_round x)"
  by (cases x) (simp_all add: np_nonneg_def fl64_nonneg(3))

lemma np_round_pos: "np_pos x \<Longrightarrow> np_pos (np_round x)"
  by (cases x) (simp_all add: np_pos_def fl64_bounds(3))

lemma is_fin_add64: "is_fin (add64 a b) \<longleftrightarrow> is_fin a \<and> is_fin b"
  by (simp add: add64_def is_fin_np_add)

lemma is_fin_sub64: "is_fin (sub64 a b) \<longleftrightarrow> is_fin a \<and> is_fin b"
  by (cases a; cases b) (simp_all add: sub64_def np_sub_def)

lemma is_fin_div64: "is_fin (div64 a b) \<Longrightarrow> is_fin a \<and> b \<noteq> Fin 0"
  by (simp add: div64_def is_fin_np_div)

lemma np_nonneg_add64: "np_nonneg a \<Longrightarrow> np_nonneg b \<Longrightarrow> np_nonneg (add64 a b)"
  by (simp add: add64_def np_round_nonneg np_nonneg_add)

lemma np_nonneg_div_weak:
  "np_nonneg a \<Longrightarrow> (is_fin b \<Longrightarrow> np_nonneg b) \<Longrightarrow> np_nonneg (np_div a b)"
  by (cases a; cases b) (simp_all add: np_nonneg_def)

lemma np_nonneg_div64:
  "np_nonneg a \<Longrightarrow> (is_fin b \<Longrightarrow> np_nonneg b) \<Longrightarrow> np_nonneg (div64 a b)"
  by (simp add: div64_def np_round_nonneg np_nonneg_div_weak)

lemma np_pos_add64: "np_pos a \<Longrightarrow> np_pos b \<Longrightarrow> np_pos (add64 a b)"
  by (simp add: add64_def np_round_pos np_pos_add)

lemma np_pos_div64: "np_pos a \<Longrightarrow> np_pos b \<Longrightarrow> np_pos (div64 a b)"
  by (simp add: div64_def np_round_pos np_pos_div)

lemma div64_Fin_pos:
  assumes "0 \<le> n" and "np_pos b"
  shows "is_fin (div64 (Fin n) b)" and "np_nonneg (div64 (Fin n) b)"
    and "0 < n \<Longrightarrow> np_pos (div64 (Fin n) b)"
  using np_div_Fin_pos [OF assms]
  by (simp_all add: div64_def np_round_nonneg np_round_pos)

text \<open>The contract of the summation, unfolded.\<close>

lemma np_sum_contract_fin:
  "np_sum_contract npsum \<Longrightarrow> is_fin (npsum xs) \<longleftrightarrow> list_all is_fin xs"
  by (simp add: np_sum_contract_def)

lemma np_sum_contract_bounds:
  assumes "np_sum_contract npsum" and "list_all (\<lambda>x. is_fin x \<and> np_nonneg x) xs"
  shows "\<exists>s. npsum xs = Fin s
           \<and> (1 - u64) ^ length xs * sum_list (map the_fin xs) \<le> s
           \<and> s \<le> (1 + u64) ^ length xs * sum_list (map the_fin xs)"
proof -
  from assms(2) have "list_all is_fin xs" by (simp add: list_all_iff)
  with assms(1) have "is_fin (npsum xs)" by (simp add: np_sum_contract_fin)
  then obtain s where s: "npsum xs = Fin s" by (auto simp: is_fin_iff)
  from assms have "(1 - u64) ^ length xs * sum_list (map the_fin xs) \<le> the_fin (npsum xs)
      \<and> the_fin (npsum xs) \<le> (1 + u64) ^ length xs * sum_list (map the_fin xs)"
    unfolding np_sum_contract_def by blast
  with s show ?thesis by simp
qed

lemma sum_list_the_fin_nonneg:
  "list_all (\<lambda>x. is_fin x \<and> np_nonneg x) xs \<Longrightarrow> 0 \<le> sum_list (map the_fin xs)"
  by (rule sum_list_nonneg) (auto simp: list_all_iff is_fin_iff np_nonneg_def)

lemma np_sum_contract_nonneg:
  assumes "np_sum_contract npsum" and "list_all np_nonneg xs" and "is_fin (npsum xs)"
  shows "np_nonneg (npsum xs)"
proof -
  from assms(1,3) have "list_all is_fin xs" by (simp add: np_sum_contract_fin)
  with assms(2) have a: "list_all (\<lambda>x. is_fin x \<and> np_nonneg x) xs" by (simp add: list_all_iff)
  from np_sum_contract_bounds [OF assms(1) a] obtain s where s: "npsum xs = Fin s"
    and lo: "(1 - u64) ^ length xs * sum_list (map the_fin xs) \<le> s" by blast
  have "0 \<le> (1 - u64) ^ length xs * sum_list (map the_fin xs)"
    using sum_list_the_fin_nonneg [OF a] u64_bounds by simp
  with lo s show ?thesis by (simp add: np_nonneg_def)
qed

lemma np_sum_contract_pos:
  assumes "np_sum_contract npsum" and "list_all (\<lambda>x. is_fin x \<and> np_nonneg x) xs"
    and "\<exists>x\<in>set xs. np_pos x"
  shows "np_pos (npsum xs)"
proof -
  from np_sum_contract_bounds [OF assms(1,2)] obtain s where s: "npsum xs = Fin s"
    and lo: "(1 - u64) ^ length xs * sum_list (map the_fin xs) \<le> s" by blast
  from np_sum_pos_member [OF assms(2,3)] have "np_pos (np_sum xs)" .
  moreover from assms(2) have "np_sum xs = Fin (sum_list (map the_fin xs))"
    by (induction xs) (auto simp: is_fin_iff)
  ultimately have "0 < sum_list (map the_fin xs)" by (simp add: np_pos_def)
  then have "0 < (1 - u64) ^ length xs * sum_list (map the_fin xs)"
    using u64_bounds by simp
  with lo s show ?thesis by (simp add: np_pos_def)
qed

text \<open>Summation from left to right meets the contract.\<close>

lemma is_fin_foldl_add64:
  "is_fin (foldl add64 a xs) \<longleftrightarrow> is_fin a \<and> list_all is_fin xs"
  by (induction xs arbitrary: a) (auto simp: is_fin_add64)

lemma foldl_add64_bounds:
  assumes "0 \<le> a" and "list_all (\<lambda>x. is_fin x \<and> np_nonneg x) xs"
  shows "\<exists>s. foldl add64 (Fin a) xs = Fin s
           \<and> (1 - u64) ^ length xs * (a + sum_list (map the_fin xs)) \<le> s
           \<and> s \<le> (1 + u64) ^ length xs * (a + sum_list (map the_fin xs))"
  using assms
proof (induction xs arbitrary: a)
  case Nil
  then show ?case by simp
next
  case (Cons x xs)
  from Cons.prems(2) obtain r where x: "x = Fin r" and r: "0 \<le> r"
    by (auto simp: is_fin_iff np_nonneg_def)
  from Cons.prems(2) have xs: "list_all (\<lambda>x. is_fin x \<and> np_nonneg x) xs" by simp
  define S where "S = sum_list (map the_fin xs)"
  have S: "0 \<le> S" unfolding S_def by (rule sum_list_the_fin_nonneg [OF xs])
  define a' where "a' = fl64 (a + r)"
  from Cons.prems(1) r have ar: "0 \<le> a + r" by simp
  from fl64_nonneg [OF ar] have a': "(1 - u64) * (a + r) \<le> a'" "a' \<le> (1 + u64) * (a + r)" "0 \<le> a'"
    by (simp_all add: a'_def)
  from Cons.IH [OF a'(3) xs] obtain s where s: "foldl add64 (Fin a') xs = Fin s"
    and lo: "(1 - u64) ^ length xs * (a' + S) \<le> s"
    and hi: "s \<le> (1 + u64) ^ length xs * (a' + S)" unfolding S_def by blast
  have e: "foldl add64 (Fin a) (x # xs) = Fin s"
    by (simp add: x add64_def s [unfolded a'_def])
  have p1: "0 \<le> (1 - u64) ^ length xs" and p2: "0 \<le> (1 + u64) ^ length xs"
    using u64_bounds by simp_all
  have "(1 - u64) * (a + r + S) \<le> a' + S"
  proof -
    have "(1 - u64) * S \<le> S" using S u64_bounds by (simp add: mult_left_le_one_le)
    with a'(1) show ?thesis by (simp add: algebra_simps)
  qed
  from mult_left_mono [OF this p1] lo
  have lo': "(1 - u64) ^ length (x # xs) * (a + sum_list (map the_fin (x # xs))) \<le> s"
    by (simp add: x S_def algebra_simps)
  have "a' + S \<le> (1 + u64) * (a + r + S)"
  proof -
    have "S \<le> (1 + u64) * S" using S u64_bounds by (simp add: algebra_simps)
    with a'(2) show ?thesis by (simp add: algebra_simps)
  qed
  from mult_left_mono [OF this p2] hi
  have hi': "s \<le> (1 + u64) ^ length (x # xs) * (a + sum_list (map the_fin (x # xs)))"
    by (simp add: x S_def algebra_simps)
  from e lo' hi' show ?case by blast
qed

lemma seq_sum64_contract: "np_sum_contract seq_sum64"
  unfolding np_sum_contract_def
proof (intro allI conjI impI)
  fix xs
  show "is_fin (seq_sum64 xs) = list_all is_fin xs"
    by (simp add: seq_sum64_def is_fin_foldl_add64)
  assume a: "list_all (\<lambda>x. is_fin x \<and> np_nonneg x) xs"
  from foldl_add64_bounds [OF order_refl a] obtain s where s: "seq_sum64 xs = Fin s"
    and b: "(1 - u64) ^ length xs * sum_list (map the_fin xs) \<le> s"
      "s \<le> (1 + u64) ^ length xs * sum_list (map the_fin xs)"
    by (auto simp: seq_sum64_def)
  from s b show "(1 - u64) ^ length xs * sum_list (map the_fin xs) \<le> the_fin (seq_sum64 xs)"
    and "the_fin (seq_sum64 xs) \<le> (1 + u64) ^ length xs * sum_list (map the_fin xs)"
    by simp_all
qed

lemma add64_Fin: "add64 (Fin a) (Fin b) = Fin (fl64 (a + b))"
  by (simp add: add64_def)

lemma sub64_Fin: "sub64 (Fin a) (Fin b) = Fin (fl64 (a - b))"
  by (simp add: sub64_def np_sub_def)

lemma mul64_Fin: "mul64 (Fin a) (Fin b) = Fin (fl64 (a * b))"
  by (simp add: mul64_def)

lemma div64_Fin: "b \<noteq> 0 \<Longrightarrow> div64 (Fin a) (Fin b) = Fin (fl64 (a / b))"
  by (simp add: div64_def)

lemma BTMLE_update64_index_form:
  assumes "0 < M" and "length p = M"
  shows "BTMLE_update64 npsum (mat_of M M a) p =
     (let p1 = map (\<lambda>i. div64 (npsum (map (\<lambda>j. Fin (a i j)) [0..<M]))
                      (npsum (map (\<lambda>j. div64 (Fin (fl64 (a i j + a j i))) (add64 (p ! j) (p ! i))) [0..<M])))
                [0..<M]
      in map (\<lambda>x. div64 x (npsum p1)) p1)"
proof -
  have n: "mm2 (\<lambda>a b. fl64 (a + b)) (mat_of M M a) (np_T (mat_of M M a))
      = mat_of M M (\<lambda>i j. fl64 (a i j + a j i))"
    using assms(1) by simp
  have pp: "mm2 add64 (np_tile p M) (np_T (np_tile p M)) = mat_of M M (\<lambda>i j. add64 (p ! j) (p ! i))"
    using assms by (simp add: np_tile_mat_of)
  have den: "map npsum (mm2 div64 (lift (mat_of M M (\<lambda>i j. fl64 (a i j + a j i))))
        (mat_of M M (\<lambda>i j. add64 (p ! j) (p ! i))))
      = map (\<lambda>i. npsum (map (\<lambda>j. div64 (Fin (fl64 (a i j + a j i))) (add64 (p ! j) (p ! i))) [0..<M])) [0..<M]"
    by (simp add: map_sum_mat_of)
  have num: "map (\<lambda>r. npsum (map Fin r)) (mat_of M M a)
      = map (\<lambda>i. npsum (map (\<lambda>j. Fin (a i j)) [0..<M])) [0..<M]"
    by (simp add: map_sum_mat_of comp_def)
  show ?thesis
    unfolding BTMLE_update64_def Let_def length_mat_of n pp den num map2_map_map ..
qed

lemma length_BTMLE_update64:
  "0 < M \<Longrightarrow> length p = M \<Longrightarrow> length (BTMLE_update64 npsum (mat_of M M a) p) = M"
  by (simp add: BTMLE_update64_index_form Let_def)

lemma BTMLE_pass64_Inr:
  "BTMLE_pass64 npsum alpha p = Inr p' \<longleftrightarrow>
     p' = BTMLE_update64 npsum alpha p \<and> list_all is_fin (map2 sub64 p' p)"
  by (auto simp: BTMLE_pass64_def Let_def)

text \<open>Rounded quotients of non-negative numbers by a positive number.\<close>

lemma sum_list_fl64_div_bounds:
  assumes "0 < s" and "\<forall>r\<in>set rs. 0 \<le> r"
  shows "(1 - u64) * (sum_list rs / s) \<le> sum_list (map (\<lambda>r. fl64 (r / s)) rs)
       \<and> sum_list (map (\<lambda>r. fl64 (r / s)) rs) \<le> (1 + u64) * (sum_list rs / s)"
  using assms(2)
proof (induction rs)
  case Nil
  show ?case by simp
next
  case (Cons r rs)
  from Cons.prems assms(1) have "0 \<le> r / s" by simp
  note b = fl64_nonneg [OF this]
  from Cons have ih: "(1 - u64) * (sum_list rs / s) \<le> sum_list (map (\<lambda>r. fl64 (r / s)) rs)"
    "sum_list (map (\<lambda>r. fl64 (r / s)) rs) \<le> (1 + u64) * (sum_list rs / s)" by simp_all
  from b(1) ih(1) have "(1 - u64) * (r / s) + (1 - u64) * (sum_list rs / s)
      \<le> fl64 (r / s) + sum_list (map (\<lambda>r. fl64 (r / s)) rs)" by (rule add_mono)
  moreover from b(2) ih(2) have "fl64 (r / s) + sum_list (map (\<lambda>r. fl64 (r / s)) rs)
      \<le> (1 + u64) * (r / s) + (1 + u64) * (sum_list rs / s)" by (rule add_mono)
  ultimately show ?case by (simp add: add_divide_distrib distrib_left)
qed

text \<open>Normalising a non-empty vector of non-negative numbers by its rounded sum: if every
  rounded quotient is finite, the quotients are non-negative and sum to 1 up to rounding.\<close>

lemma normalised64_sum:
  assumes c: "np_sum_contract npsum" and ne: "xs \<noteq> []"
    and nn: "list_all np_nonneg xs"
    and f: "list_all is_fin (map (\<lambda>x. div64 x (npsum xs)) xs)"
  shows "list_all np_nonneg (map (\<lambda>x. div64 x (npsum xs)) xs)"
    and "sum_near_one (length xs) (map (\<lambda>x. div64 x (npsum xs)) xs)"
proof -
  from f have fx: "list_all is_fin xs" and z: "\<forall>x\<in>set xs. npsum xs \<noteq> Fin 0"
    by (auto simp: list_all_iff dest: is_fin_div64)
  from fx nn have a: "list_all (\<lambda>x. is_fin x \<and> np_nonneg x) xs" by (simp add: list_all_iff)
  define rs where "rs = map the_fin xs"
  have xs: "xs = map Fin rs"
    by (rule sym) (simp only: rs_def map_Fin_the_fin [OF fx])
  from a have r0: "\<forall>r\<in>set rs. 0 \<le> r"
    by (auto simp: rs_def list_all_iff is_fin_iff np_nonneg_def)
  have S0: "0 \<le> sum_list rs" unfolding rs_def by (rule sum_list_the_fin_nonneg [OF a])
  define n where "n = length xs"
  from np_sum_contract_bounds [OF c a] obtain s where s: "npsum xs = Fin s"
    and lo: "(1 - u64) ^ n * sum_list rs \<le> s" and hi: "s \<le> (1 + u64) ^ n * sum_list rs"
    unfolding rs_def n_def by blast
  from ne z s have sz: "s \<noteq> 0" by (cases xs) auto
  have pl: "0 < (1 - u64) ^ n" and ph: "0 < (1 + u64) ^ n" using u64_bounds by simp_all
  from lo S0 pl have "0 \<le> s" by (meson mult_nonneg_nonneg less_imp_le order_trans)
  with sz have sp: "0 < s" by simp
  have Sp: "0 < sum_list rs"
  proof (rule ccontr)
    assume "\<not> 0 < sum_list rs"
    with S0 have "sum_list rs = 0" by simp
    with hi sp show False by simp
  qed
  have "map (\<lambda>x. div64 x (Fin s)) (map Fin rs) = map Fin (map (\<lambda>r. fl64 (r / s)) rs)"
    using sz by (simp add: div64_def)
  then have e: "map (\<lambda>x. div64 x (npsum xs)) xs = map Fin (map (\<lambda>r. fl64 (r / s)) rs)"
    unfolding s unfolding xs [symmetric] .
  have "\<forall>r\<in>set rs. 0 \<le> fl64 (r / s)"
    using r0 sp by (auto intro!: fl64_nonneg(3))
  then show "list_all np_nonneg (map (\<lambda>x. div64 x (npsum xs)) xs)"
    unfolding e by (simp add: list_all_iff np_nonneg_def)
  from sum_list_fl64_div_bounds [OF sp r0]
  have b: "(1 - u64) * (sum_list rs / s) \<le> sum_list (map (\<lambda>r. fl64 (r / s)) rs)"
    "sum_list (map (\<lambda>r. fl64 (r / s)) rs) \<le> (1 + u64) * (sum_list rs / s)" by blast+
  from hi sp ph Sp have q1: "1 / (1 + u64) ^ n \<le> sum_list rs / s"
    by (simp add: field_simps)
  from lo sp pl Sp have q2: "sum_list rs / s \<le> 1 / (1 - u64) ^ n"
    by (simp add: field_simps)
  have u1: "0 \<le> 1 - u64" "0 \<le> 1 + u64" using u64_bounds by simp_all
  from mult_left_mono [OF q1 u1(1)] b(1)
  have l: "(1 - u64) / (1 + u64) ^ n \<le> sum_list (map (\<lambda>r. fl64 (r / s)) rs)" by simp
  from mult_left_mono [OF q2 u1(2)] b(2)
  have h: "sum_list (map (\<lambda>r. fl64 (r / s)) rs) \<le> (1 + u64) / (1 - u64) ^ n" by simp
  from l h show "sum_near_one (length xs) (map (\<lambda>x. div64 x (npsum xs)) xs)"
    unfolding e sum_near_one_def np_sum_map_Fin n_def by simp
qed

lemma is_fin_sub64_list:
  assumes "length p' = length p" and "list_all is_fin (map2 sub64 p' p)"
  shows "list_all is_fin p'"
proof -
  from assms have "\<forall>i<length p'. is_fin (sub64 (p' ! i) (p ! i))"
    by (simp add: list_all_map2_same_length)
  then have "\<forall>i<length p'. is_fin (p' ! i)" by (simp add: is_fin_sub64)
  then show ?thesis by (simp add: list_all_length)
qed

lemma BTMLE_update64_raw_nonneg:
  assumes c: "np_sum_contract npsum" and "length p = M" and "list_all np_nonneg p"
    and "\<And>i j. i < M \<Longrightarrow> j < M \<Longrightarrow> 0 \<le> a i j"
  shows "list_all np_nonneg
      (map (\<lambda>i. div64 (npsum (map (\<lambda>j. Fin (a i j)) [0..<M]))
                   (npsum (map (\<lambda>j. div64 (Fin (fl64 (a i j + a j i))) (add64 (p ! j) (p ! i))) [0..<M])))
         [0..<M])"
  unfolding list_all_map_upt
proof (intro allI impI)
  fix i assume i: "i < M"
  have pn: "np_nonneg (p ! k)" if "k < M" for k
    using assms(2,3) that by (simp add: list_all_length)
  have rowfin: "list_all (\<lambda>x. is_fin x \<and> np_nonneg x) (map (\<lambda>j. Fin (a i j)) [0..<M])"
    unfolding list_all_map_upt using assms(4) [OF i] by (simp add: np_nonneg_def)
  from np_sum_contract_bounds [OF c rowfin] obtain w where
    w: "npsum (map (\<lambda>j. Fin (a i j)) [0..<M]) = Fin w" by blast
  have "np_nonneg (npsum (map (\<lambda>j. Fin (a i j)) [0..<M]))"
    by (rule np_sum_contract_nonneg [OF c]) (use rowfin w in \<open>auto simp: list_all_iff\<close>)
  moreover have "np_nonneg (npsum (map (\<lambda>j. div64 (Fin (fl64 (a i j + a j i))) (add64 (p ! j) (p ! i))) [0..<M]))"
    if "is_fin (npsum (map (\<lambda>j. div64 (Fin (fl64 (a i j + a j i))) (add64 (p ! j) (p ! i))) [0..<M]))"
  proof (rule np_sum_contract_nonneg [OF c _ that], unfold list_all_map_upt, intro allI impI)
    fix j assume j: "j < M"
    from assms(4) [OF i j] assms(4) [OF j i] have "0 \<le> a i j + a j i" by simp
    then have "np_nonneg (Fin (fl64 (a i j + a j i)))"
      by (simp add: np_nonneg_def fl64_nonneg(3))
    then show "np_nonneg (div64 (Fin (fl64 (a i j + a j i))) (add64 (p ! j) (p ! i)))"
      by (rule np_nonneg_div64) (rule np_nonneg_add64 [OF pn [OF j] pn [OF i]])
  qed
  ultimately show "np_nonneg (div64 (npsum (map (\<lambda>j. Fin (a i j)) [0..<M]))
      (npsum (map (\<lambda>j. div64 (Fin (fl64 (a i j + a j i))) (add64 (p ! j) (p ! i))) [0..<M])))"
    by (rule np_nonneg_div64)
qed

lemma BTMLE_pass64_near_one:
  assumes c: "np_sum_contract npsum" and M: "0 < M" and l: "length p = M"
    and pn: "list_all np_nonneg p"
    and nn: "\<And>i j. i < M \<Longrightarrow> j < M \<Longrightarrow> 0 \<le> a i j"
    and b: "BTMLE_pass64 npsum (mat_of M M a) p = Inr p'"
  shows "length p' = M \<and> list_all np_nonneg p' \<and> list_all is_fin p' \<and> sum_near_one M p'"
proof -
  from b have p': "p' = BTMLE_update64 npsum (mat_of M M a) p"
    and f: "list_all is_fin (map2 sub64 p' p)" unfolding BTMLE_pass64_Inr by blast+
  from p' have l': "length p' = M" by (simp add: length_BTMLE_update64 M l)
  from is_fin_sub64_list [OF _ f] l l' have fin: "list_all is_fin p'" by simp
  define p1 where "p1 = map (\<lambda>i. div64 (npsum (map (\<lambda>j. Fin (a i j)) [0..<M]))
      (npsum (map (\<lambda>j. div64 (Fin (fl64 (a i j + a j i))) (add64 (p ! j) (p ! i))) [0..<M]))) [0..<M]"
  have e: "p' = map (\<lambda>x. div64 x (npsum p1)) p1"
    unfolding p' p1_def by (simp add: BTMLE_update64_index_form M l Let_def)
  have n1: "list_all np_nonneg p1"
    unfolding p1_def by (rule BTMLE_update64_raw_nonneg [OF c l pn nn])
  from M have ne: "p1 \<noteq> []" and l1: "length p1 = M" by (simp_all add: p1_def)
  from fin have f1: "list_all is_fin (map (\<lambda>x. div64 x (npsum p1)) p1)" unfolding e .
  from normalised64_sum [OF c ne n1 f1] l' fin show ?thesis unfolding e [symmetric] l1 by simp
qed

lemma BTMLE_update64_pos:
  assumes c: "np_sum_contract npsum" and M: "0 < M" and l: "length p = M"
    and pp: "list_all np_pos p"
    and nn: "\<And>i j. i < M \<Longrightarrow> j < M \<Longrightarrow> 0 \<le> a i j"
    and rp: "\<And>i. i < M \<Longrightarrow> 0 < sum_list (map (a i) [0..<M])"
  shows "list_all np_pos (BTMLE_update64 npsum (mat_of M M a) p)"
proof -
  have pn: "np_pos (p ! i)" if "i < M" for i
    using l pp that by (simp add: list_all_length)
  have num: "np_pos (npsum (map (\<lambda>j. Fin (a i j)) [0..<M]))" if i: "i < M" for i
  proof (rule np_sum_contract_pos [OF c])
    show "list_all (\<lambda>x. is_fin x \<and> np_nonneg x) (map (\<lambda>j. Fin (a i j)) [0..<M])"
      unfolding list_all_map_upt using nn [OF i] by (simp add: np_nonneg_def)
    from exists_positive_entry [OF rp [OF i]] obtain j where "j < M" and "0 < a i j" by blast
    then show "\<exists>x\<in>set (map (\<lambda>j. Fin (a i j)) [0..<M]). np_pos x"
      by (auto simp: np_pos_def)
  qed
  have den: "np_pos (npsum (map (\<lambda>j. div64 (Fin (fl64 (a i j + a j i))) (add64 (p ! j) (p ! i))) [0..<M]))"
    if i: "i < M" for i
  proof (rule np_sum_contract_pos [OF c])
    show "list_all (\<lambda>x. is_fin x \<and> np_nonneg x)
        (map (\<lambda>j. div64 (Fin (fl64 (a i j + a j i))) (add64 (p ! j) (p ! i))) [0..<M])"
      unfolding list_all_map_upt
    proof (intro allI impI)
      fix j assume j: "j < M"
      from nn [OF i j] nn [OF j i] have "0 \<le> a i j + a j i" by simp
      then have "0 \<le> fl64 (a i j + a j i)" by (rule fl64_nonneg(3))
      from div64_Fin_pos(1,2) [OF this np_pos_add64 [OF pn [OF j] pn [OF i]]]
      show "is_fin (div64 (Fin (fl64 (a i j + a j i))) (add64 (p ! j) (p ! i)))
          \<and> np_nonneg (div64 (Fin (fl64 (a i j + a j i))) (add64 (p ! j) (p ! i)))" by simp
    qed
    from exists_positive_entry [OF rp [OF i]] obtain j where j: "j < M" and aj: "0 < a i j" by blast
    from aj nn [OF j i] have "0 < a i j + a j i" by simp
    then have "0 < fl64 (a i j + a j i)" by (rule fl64_bounds(3))
    from div64_Fin_pos(3) [OF less_imp_le [OF this] np_pos_add64 [OF pn [OF j] pn [OF i]] this]
    have "np_pos (div64 (Fin (fl64 (a i j + a j i))) (add64 (p ! j) (p ! i)))" .
    with j show "\<exists>x\<in>set (map (\<lambda>j. div64 (Fin (fl64 (a i j + a j i))) (add64 (p ! j) (p ! i))) [0..<M]).
        np_pos x" by auto
  qed
  define p1 where "p1 = map (\<lambda>i. div64 (npsum (map (\<lambda>j. Fin (a i j)) [0..<M]))
      (npsum (map (\<lambda>j. div64 (Fin (fl64 (a i j + a j i))) (add64 (p ! j) (p ! i))) [0..<M]))) [0..<M]"
  have p1: "list_all np_pos p1"
    unfolding p1_def list_all_map_upt by (intro allI impI np_pos_div64 num den)
  from M have ne: "p1 \<noteq> []" by (simp add: p1_def)
  have "np_pos (npsum p1)"
  proof (rule np_sum_contract_pos [OF c])
    from p1 show "list_all (\<lambda>x. is_fin x \<and> np_nonneg x) p1"
      by (auto simp: list_all_iff dest: np_pos_imp)
    from ne p1 show "\<exists>x\<in>set p1. np_pos x" by (cases p1) simp_all
  qed
  with p1 have "list_all np_pos (map (\<lambda>x. div64 x (npsum p1)) p1)"
    by (auto simp: list_all_iff intro: np_pos_div64)
  then show ?thesis
    unfolding p1_def by (simp add: BTMLE_update64_index_form M l Let_def)
qed

lemma BTMLE_pass64_pos:
  assumes c: "np_sum_contract npsum" and M: "0 < M" and l: "length p = M"
    and pp: "list_all np_pos p"
    and nn: "\<And>i j. i < M \<Longrightarrow> j < M \<Longrightarrow> 0 \<le> a i j"
    and rp: "\<And>i. i < M \<Longrightarrow> 0 < sum_list (map (a i) [0..<M])"
  shows "\<exists>p'. BTMLE_pass64 npsum (mat_of M M a) p = Inr p' \<and> length p' = M \<and> list_all np_pos p'"
proof -
  define p' where "p' = BTMLE_update64 npsum (mat_of M M a) p"
  have pos: "list_all np_pos p'" unfolding p'_def by (rule BTMLE_update64_pos [OF c M l pp nn rp])
  have l': "length p' = M" by (simp add: p'_def length_BTMLE_update64 M l)
  have "list_all is_fin (map2 sub64 p' p)"
    using pos pp l l' by (auto simp: list_all_map2_same_length list_all_length is_fin_sub64 dest: np_pos_imp)
  then have "BTMLE_pass64 npsum (mat_of M M a) p = Inr p'"
    unfolding BTMLE_pass64_Inr p'_def by simp
  with pos l' show ?thesis by blast
qed

lemma BTMLE_body64_Inr:
  "BTMLE_body64 npsum nrm alpha p = Inr (p', c) \<Longrightarrow> BTMLE_pass64 npsum alpha p = Inr p'"
  by (auto simp: BTMLE_body64_def split: sum.splits)

lemma BTMLE_loop64_rule_aux:
  assumes "BTMLE_loop64 npsum' nrm' alpha' q0 = Some y"
  shows "npsum' = npsum \<and> nrm' = nrm \<and> alpha' = alpha \<longrightarrow> (\<forall>p. y = Inr p \<longrightarrow> I q0 \<longrightarrow>
           (\<forall>q q'. I q \<longrightarrow> BTMLE_pass64 npsum alpha q = Inr q' \<longrightarrow> I q') \<longrightarrow>
           (\<exists>q. I q \<and> BTMLE_pass64 npsum alpha q = Inr p))"
proof (rule BTMLE_loop64.raw_induct
    [where P = "\<lambda>npsum' nrm' alpha' q0 y. npsum' = npsum \<and> nrm' = nrm \<and> alpha' = alpha \<longrightarrow>
         (\<forall>p. y = Inr p \<longrightarrow> I q0 \<longrightarrow>
           (\<forall>q q'. I q \<longrightarrow> BTMLE_pass64 npsum alpha q = Inr q' \<longrightarrow> I q') \<longrightarrow>
           (\<exists>q. I q \<and> BTMLE_pass64 npsum alpha q = Inr p))", OF _ assms])
  fix loop :: "(npfloat list \<Rightarrow> npfloat) \<Rightarrow> (real list \<Rightarrow> real) \<Rightarrow> real list list \<Rightarrow> npfloat list
     \<Rightarrow> (error + npfloat list) option"
  fix npsum' nrm' alpha' q0 y
  assume IH: "\<And>npsum' nrm' alpha' q0 y. loop npsum' nrm' alpha' q0 = Some y \<Longrightarrow>
      npsum' = npsum \<and> nrm' = nrm \<and> alpha' = alpha \<longrightarrow>
         (\<forall>p. y = Inr p \<longrightarrow> I q0 \<longrightarrow>
           (\<forall>q q'. I q \<longrightarrow> BTMLE_pass64 npsum alpha q = Inr q' \<longrightarrow> I q') \<longrightarrow>
           (\<exists>q. I q \<and> BTMLE_pass64 npsum alpha q = Inr p))"
  assume step: "(case BTMLE_body64 npsum' nrm' alpha' q0 of Inl e \<Rightarrow> Some (Inl e)
      | Inr pc \<Rightarrow> if fl64 DELTA_THR < snd pc then loop npsum' nrm' alpha' (fst pc)
                   else Some (Inr (fst pc))) = Some y"
  show "npsum' = npsum \<and> nrm' = nrm \<and> alpha' = alpha \<longrightarrow>
         (\<forall>p. y = Inr p \<longrightarrow> I q0 \<longrightarrow>
           (\<forall>q q'. I q \<longrightarrow> BTMLE_pass64 npsum alpha q = Inr q' \<longrightarrow> I q') \<longrightarrow>
           (\<exists>q. I q \<and> BTMLE_pass64 npsum alpha q = Inr p))"
  proof (intro impI allI)
    fix p
    assume a: "npsum' = npsum \<and> nrm' = nrm \<and> alpha' = alpha" and y: "y = Inr p" and i0: "I q0"
      and pres: "\<forall>q q'. I q \<longrightarrow> BTMLE_pass64 npsum alpha q = Inr q' \<longrightarrow> I q'"
    from step y obtain q1 c where b: "BTMLE_body64 npsum' nrm' alpha' q0 = Inr (q1, c)"
      by (cases "BTMLE_body64 npsum' nrm' alpha' q0") auto
    from BTMLE_body64_Inr [OF b] a have ps: "BTMLE_pass64 npsum alpha q0 = Inr q1" by simp
    with pres i0 have i1: "I q1" by blast
    show "\<exists>q. I q \<and> BTMLE_pass64 npsum alpha q = Inr p"
    proof (cases "fl64 DELTA_THR < c")
      case True
      with step b y have "loop npsum' nrm' alpha' q1 = Some (Inr p)" by simp
      from IH [OF this] a i1 pres show ?thesis by blast
    next
      case False
      with step b y have "p = q1" by simp
      with i0 ps show ?thesis by blast
    qed
  qed
qed

lemma BTMLE_loop64_is_iterate:
  assumes "BTMLE_loop64 npsum nrm alpha (BTMLE_p0_64 (length alpha)) = Some (Inr p)"
  shows "\<exists>k. BTMLE_iterate64 npsum alpha (Suc k) = Inr p"
proof -
  have i0: "\<exists>k. BTMLE_iterate64 npsum alpha k = Inr (BTMLE_p0_64 (length alpha))"
    by (rule exI [of _ 0]) simp
  have pres: "\<forall>q q'. (\<exists>k. BTMLE_iterate64 npsum alpha k = Inr q) \<longrightarrow>
      BTMLE_pass64 npsum alpha q = Inr q' \<longrightarrow> (\<exists>k. BTMLE_iterate64 npsum alpha k = Inr q')"
  proof (intro allI impI)
    fix q q'
    assume "\<exists>k. BTMLE_iterate64 npsum alpha k = Inr q" and b: "BTMLE_pass64 npsum alpha q = Inr q'"
    then obtain k where "BTMLE_iterate64 npsum alpha k = Inr q" by blast
    with b have "BTMLE_iterate64 npsum alpha (Suc k) = Inr q'" by simp
    then show "\<exists>k. BTMLE_iterate64 npsum alpha k = Inr q'" ..
  qed
  from BTMLE_loop64_rule_aux [OF assms, of npsum nrm alpha
      "\<lambda>q. \<exists>k. BTMLE_iterate64 npsum alpha k = Inr q"] i0 pres
  obtain q k where "BTMLE_iterate64 npsum alpha k = Inr q" and "BTMLE_pass64 npsum alpha q = Inr p"
    by blast
  then have "BTMLE_iterate64 npsum alpha (Suc k) = Inr p" by simp
  then show ?thesis ..
qed

lemma BTMLE_p0_64_props:
  assumes "0 < M"
  shows "length (BTMLE_p0_64 M) = M" and "list_all np_pos (BTMLE_p0_64 M)"
proof -
  show "length (BTMLE_p0_64 M) = M" by (simp add: BTMLE_p0_64_def)
  from assms have "0 < 1 / real M" by simp
  then have "0 < fl64 (1 / real M)" by (rule fl64_bounds(3))
  then have "0 < fl64 (fl64 (1 / real M))" by (rule fl64_bounds(3))
  with assms show "list_all np_pos (BTMLE_p0_64 M)"
    by (simp add: BTMLE_p0_64_def list_all_iff np_pos_def mul64_def div64_def)
qed

lemma BTMLE_iterate64_nonneg:
  assumes c: "np_sum_contract npsum" and m: "is_mat alpha M M" and M: "0 < M"
    and nn: "\<forall>i<M. \<forall>j<M. 0 \<le> alpha ! i ! j"
  shows "BTMLE_iterate64 npsum alpha k = Inr p \<Longrightarrow> length p = M \<and> list_all np_nonneg p"
proof (induction k arbitrary: p)
  case 0
  from m have "length alpha = M" by (simp add: is_mat_def)
  with 0 BTMLE_p0_64_props [OF M] show ?case
    by (auto simp: list_all_iff dest: np_pos_imp)
next
  case (Suc k)
  from Suc.prems obtain q where q: "BTMLE_iterate64 npsum alpha k = Inr q"
    and b: "BTMLE_pass64 npsum alpha q = Inr p"
    by (auto split: sum.splits)
  from Suc.IH [OF q] have l: "length q = M" and qn: "list_all np_nonneg q" by simp_all
  from m have a: "alpha = mat_of M M (\<lambda>i j. alpha ! i ! j)" by (rule is_mat_eq_mat_of)
  from b have "BTMLE_pass64 npsum (mat_of M M (\<lambda>i j. alpha ! i ! j)) q = Inr p"
    by (subst a [symmetric])
  from BTMLE_pass64_near_one [OF c M l qn _ this] nn show ?case by simp
qed

lemma BTMLE_iterate64_near_one:
  assumes c: "np_sum_contract npsum" and m: "is_mat alpha M M" and M: "0 < M"
    and nn: "\<forall>i<M. \<forall>j<M. 0 \<le> alpha ! i ! j"
    and s: "BTMLE_iterate64 npsum alpha (Suc k) = Inr p"
  shows "sum_near_one M p"
proof -
  from s obtain q where q: "BTMLE_iterate64 npsum alpha k = Inr q"
    and b: "BTMLE_pass64 npsum alpha q = Inr p"
    by (auto split: sum.splits)
  from BTMLE_iterate64_nonneg [OF c m M nn q] have l: "length q = M" and qn: "list_all np_nonneg q"
    by simp_all
  from m have a: "alpha = mat_of M M (\<lambda>i j. alpha ! i ! j)" by (rule is_mat_eq_mat_of)
  from b have "BTMLE_pass64 npsum (mat_of M M (\<lambda>i j. alpha ! i ! j)) q = Inr p"
    by (subst a [symmetric])
  from BTMLE_pass64_near_one [OF c M l qn _ this] nn show ?thesis by simp
qed

lemma BTMLE_iterate64_pos:
  assumes c: "np_sum_contract npsum" and m: "is_mat alpha M M" and M: "0 < M"
    and nn: "\<forall>i<M. \<forall>j<M. 0 \<le> alpha ! i ! j"
    and rp: "\<forall>i<M. 0 < sum_list (alpha ! i)"
  shows "\<exists>p. BTMLE_iterate64 npsum alpha k = Inr p \<and> length p = M \<and> list_all np_pos p"
proof (induction k)
  case 0
  from m have "length alpha = M" by (simp add: is_mat_def)
  with BTMLE_p0_64_props [OF M] show ?case by simp
next
  case (Suc k)
  then obtain q where q: "BTMLE_iterate64 npsum alpha k = Inr q"
    and l: "length q = M" and qp: "list_all np_pos q" by blast
  from m have a: "alpha = mat_of M M (\<lambda>i j. alpha ! i ! j)" by (rule is_mat_eq_mat_of)
  have row: "map (\<lambda>j. alpha ! i ! j) [0..<M] = alpha ! i" if "i < M" for i
  proof -
    from m that have "length (alpha ! i) = M" by (simp add: is_mat_def list_all_length)
    then show ?thesis using map_nth [of "alpha ! i"] by simp
  qed
  have "\<exists>p'. BTMLE_pass64 npsum (mat_of M M (\<lambda>i j. alpha ! i ! j)) q = Inr p'
      \<and> length p' = M \<and> list_all np_pos p'"
    by (rule BTMLE_pass64_pos [OF c M l qp]) (use nn rp row in auto)
  then obtain p' where "BTMLE_pass64 npsum alpha q = Inr p'" "length p' = M" "list_all np_pos p'"
    unfolding a [symmetric] by blast
  with q show ?case by simp
qed

subsection \<open>Runs of the fixed-point solver on two matrices\<close>

text \<open>The matrix \<open>[[0, 5, 5], [0, 0, 5], [0, 0, 0]]\<close>, in which the third item never wins: the
  second pass divides 0 by 0.\<close>

lemmas array_eval = BTMLE_update_def Let_def np_T_def shape_def mat_of_def mm2_def lift_def
  np_tile_def np_sub_def numeral_2_eq_2 numeral_3_eq_3

lemma BTMLE_update_abc_first:
  "BTMLE_update [[0, 5, 5], [0, 0, 5], [0, 0, 0]] (BTMLE_p0 3) = [Fin (2 / 3), Fin (1 / 3), Fin 0]"
  by (simp add: array_eval BTMLE_p0_def)

lemma BTMLE_update_abc_second:
  "BTMLE_update [[0, 5, 5], [0, 0, 5], [0, 0, 0]] [Fin (2 / 3), Fin (1 / 3), Fin 0]
     = [NaN, NaN, NaN]"
  by (simp add: array_eval)

lemma BTMLE_body_abc_first:
  "BTMLE_body [[0, 5, 5], [0, 0, 5], [0, 0, 0]] (BTMLE_p0 3)
     = Inr ([Fin (2 / 3), Fin (1 / 3), Fin 0], sqrt (2 / 9))"
  unfolding BTMLE_body_def BTMLE_update_abc_first Let_def
  by (simp add: BTMLE_p0_def np_linalg_norm_def linalg_norm_def np_sub_def numeral_3_eq_3)

lemma BTMLE_body_abc_second:
  "BTMLE_body [[0, 5, 5], [0, 0, 5], [0, 0, 0]] [Fin (2 / 3), Fin (1 / 3), Fin 0]
     = Inl (ValueError ''array must not contain infs or NaNs'')"
  unfolding BTMLE_body_def BTMLE_update_abc_second Let_def
  by (simp add: np_linalg_norm_def np_sub_def)

lemma DELTA_THR_less_abc_change: "DELTA_THR < sqrt (2 / 9)"
  unfolding DELTA_THR_def by (rule real_less_rsqrt) (simp add: power2_eq_square)

lemma BTMLE_loop_abc:
  "BTMLE_loop [[0, 5, 5], [0, 0, 5], [0, 0, 0]] (BTMLE_p0 3)
     = Some (Inl (ValueError ''array must not contain infs or NaNs''))"
  by (subst BTMLE_loop.simps, simp add: BTMLE_body_abc_first DELTA_THR_less_abc_change,
      subst BTMLE_loop.simps, simp add: BTMLE_body_abc_second)

text \<open>The matrix \<open>[[0, 32, 1], [32, 0, 1], [1, 1, 0]]\<close>: the loop exits after one pass at
  \<open>p = [1/3, 1/3, 1/3]\<close>, and the inverse of the bordered matrix has a negative diagonal.\<close>

lemma B3inv_inverse:
  "matmul_mm B3inv B3 = [[1, 0, 0, 0], [0, 1, 0, 0], [0, 0, 1, 0], [0, 0, 0, 1]]"
  "matmul_mm B3 B3inv = [[1, 0, 0, 0], [0, 1, 0, 0], [0, 0, 1, 0], [0, 0, 0, 1]]"
  by (simp_all add: matmul_mm_def B3_def B3inv_def np_T_def shape_def mat_of_def
      eval_nat_numeral)

lemma BTMLE_update_skewed: "BTMLE_update [[0, 32, 1], [32, 0, 1], [1, 1, 0]] (BTMLE_p0 3)
    = [Fin (1 / 3), Fin (1 / 3), Fin (1 / 3)]"
  by (simp add: array_eval BTMLE_p0_def)

lemma BTMLE_body_skewed: "BTMLE_body [[0, 32, 1], [32, 0, 1], [1, 1, 0]] (BTMLE_p0 3)
    = Inr ([Fin (1 / 3), Fin (1 / 3), Fin (1 / 3)], 0)"
  unfolding BTMLE_body_def BTMLE_update_skewed Let_def
  by (simp add: BTMLE_p0_def np_linalg_norm_def linalg_norm_def np_sub_def numeral_3_eq_3)

lemma BTMLE_loop_skewed: "BTMLE_loop [[0, 32, 1], [32, 0, 1], [1, 1, 0]] (BTMLE_p0 3)
    = Some (Inr [Fin (1 / 3), Fin (1 / 3), Fin (1 / 3)])"
  by (subst BTMLE_loop.simps) (simp add: BTMLE_body_skewed DELTA_THR_def)

lemma BTMLE_bordered_skewed:
  "BTMLE_bordered [[0, 32, 1], [32, 0, 1], [1, 1, 0]] [Fin (1 / 3), Fin (1 / 3), Fin (1 / 3)]
     = lift B3"
  by (simp add: BTMLE_bordered_def array_eval np_diag_def B3_def)

lemma BTMLE_std_skewed:
  assumes "pinv (lift B3) = Inr (lift B3inv)"
  shows "BTMLE_std pinv [[0, 32, 1], [32, 0, 1], [1, 1, 0]] [Fin (1 / 3), Fin (1 / 3), Fin (1 / 3)]
     = Inr [NaN, NaN, NaN]"
  unfolding BTMLE_std_def BTMLE_bordered_skewed assms
  by (simp add: B3inv_def lift_def np_diagonal_def shape_def np_bcast2_def eval_nat_numeral)

subsection \<open>Runs of the fixed-point loop in binary64 arithmetic\<close>

text \<open>The roundings of the first pass on \<open>[[0, 0, 1], [0, 0, 1], [0, 1, 0]]\<close> and on
  \<open>[[0, 1], [1, 0]]\<close>, one lemma for each operation on each pair of operands that occurs.
  The exact result \<open>x\<close> has \<open>2^52 \<le> x 2^k < 2^53\<close> for the \<open>k\<close> named in the proof, and the
  double stated is \<open>m / 2^k\<close> for the integer \<open>m\<close> nearest to \<open>x 2^k\<close>, the even one in the two
  additions where \<open>x 2^k\<close> lies halfway between two integers.\<close>

lemma op64_0:
  "div64 (Fin 1) (Fin 3) = Fin (6004799503160661 / 18014398509481984)"
proof -
  have nz: "(3::real) \<noteq> 0" by simp
  show ?thesis unfolding div64_Fin [OF nz]
    by (rule arg_cong [where f = Fin], rule fl64_eval [where k = 54 and m = 6004799503160661]) simp_all
qed

lemma op64_1:
  "mul64 (Fin (6004799503160661 / 18014398509481984)) (Fin 1) = Fin (6004799503160661 / 18014398509481984)"
  unfolding mul64_Fin
  by (rule arg_cong [where f = Fin], rule fl64_eval [where k = 54 and m = 6004799503160661]) simp_all

lemma op64_2:
  "add64 (Fin (6004799503160661 / 18014398509481984)) (Fin (6004799503160661 / 18014398509481984)) = Fin (6004799503160661 / 9007199254740992)"
  unfolding add64_Fin
  by (rule arg_cong [where f = Fin], rule fl64_eval [where k = 53 and m = 6004799503160661]) simp_all

lemma op64_3:
  "div64 (Fin 0) (Fin (6004799503160661 / 9007199254740992)) = Fin 0"
proof -
  have nz: "(6004799503160661 / 9007199254740992::real) \<noteq> 0" by simp
  show ?thesis unfolding div64_Fin [OF nz] by simp
qed

lemma op64_4:
  "div64 (Fin 1) (Fin (6004799503160661 / 9007199254740992)) = Fin (3 / 2)"
proof -
  have nz: "(6004799503160661 / 9007199254740992::real) \<noteq> 0" by simp
  show ?thesis unfolding div64_Fin [OF nz]
    by (rule arg_cong [where f = Fin], rule fl64_eval [where k = 52 and m = 6755399441055744]) simp_all
qed

lemma op64_5:
  "div64 (Fin 2) (Fin (6004799503160661 / 9007199254740992)) = Fin 3"
proof -
  have nz: "(6004799503160661 / 9007199254740992::real) \<noteq> 0" by simp
  show ?thesis unfolding div64_Fin [OF nz]
    by (rule arg_cong [where f = Fin], rule fl64_eval [where k = 51 and m = 6755399441055744]) simp_all
qed

lemma op64_6:
  "add64 (Fin 0) (Fin 0) = Fin 0"
  unfolding add64_Fin by simp

lemma op64_7:
  "add64 (Fin 0) (Fin (3 / 2)) = Fin (3 / 2)"
  unfolding add64_Fin
  by (rule arg_cong [where f = Fin], rule fl64_eval [where k = 52 and m = 6755399441055744]) simp_all

lemma op64_8:
  "add64 (Fin 0) (Fin 3) = Fin 3"
  unfolding add64_Fin
  by (rule arg_cong [where f = Fin], rule fl64_eval [where k = 51 and m = 6755399441055744]) simp_all

lemma op64_9:
  "add64 (Fin (3 / 2)) (Fin 3) = Fin (9 / 2)"
  unfolding add64_Fin
  by (rule arg_cong [where f = Fin], rule fl64_eval [where k = 50 and m = 5066549580791808]) simp_all

lemma op64_10:
  "add64 (Fin (9 / 2)) (Fin 0) = Fin (9 / 2)"
  unfolding add64_Fin
  by (rule arg_cong [where f = Fin], rule fl64_eval [where k = 50 and m = 5066549580791808]) simp_all

lemma op64_11:
  "add64 (Fin 0) (Fin 1) = Fin 1"
  unfolding add64_Fin
  by (rule arg_cong [where f = Fin], rule fl64_eval [where k = 52 and m = 4503599627370496]) simp_all

lemma op64_12:
  "add64 (Fin 1) (Fin 0) = Fin 1"
  unfolding add64_Fin
  by (rule arg_cong [where f = Fin], rule fl64_eval [where k = 52 and m = 4503599627370496]) simp_all

lemma op64_13:
  "div64 (Fin 1) (Fin (3 / 2)) = Fin (6004799503160661 / 9007199254740992)"
proof -
  have nz: "(3 / 2::real) \<noteq> 0" by simp
  show ?thesis unfolding div64_Fin [OF nz]
    by (rule arg_cong [where f = Fin], rule fl64_eval [where k = 53 and m = 6004799503160661]) simp_all
qed

lemma op64_14:
  "div64 (Fin 1) (Fin (9 / 2)) = Fin (2001599834386887 / 9007199254740992)"
proof -
  have nz: "(9 / 2::real) \<noteq> 0" by simp
  show ?thesis unfolding div64_Fin [OF nz]
    by (rule arg_cong [where f = Fin], rule fl64_eval [where k = 55 and m = 8006399337547548]) simp_all
qed

lemma op64_15:
  "add64 (Fin 0) (Fin (6004799503160661 / 9007199254740992)) = Fin (6004799503160661 / 9007199254740992)"
  unfolding add64_Fin
  by (rule arg_cong [where f = Fin], rule fl64_eval [where k = 53 and m = 6004799503160661]) simp_all

lemma op64_16:
  "add64 (Fin (6004799503160661 / 9007199254740992)) (Fin (6004799503160661 / 18014398509481984)) = Fin 1"
  unfolding add64_Fin
  by (rule arg_cong [where f = Fin], rule fl64_eval_tie [where k = 53 and f = 9007199254740991 and m = 9007199254740992]) simp_all

lemma op64_17:
  "add64 (Fin 1) (Fin (2001599834386887 / 9007199254740992)) = Fin (1376099886140985 / 1125899906842624)"
  unfolding add64_Fin
  by (rule arg_cong [where f = Fin], rule fl64_eval_tie [where k = 52 and f = 5504399544563939 and m = 5504399544563940]) simp_all

lemma op64_18:
  "div64 (Fin (6004799503160661 / 9007199254740992)) (Fin (1376099886140985 / 1125899906842624)) = Fin (1228254443828317 / 2251799813685248)"
proof -
  have nz: "(1376099886140985 / 1125899906842624::real) \<noteq> 0" by simp
  show ?thesis unfolding div64_Fin [OF nz]
    by (rule arg_cong [where f = Fin], rule fl64_eval [where k = 53 and m = 4913017775313268]) simp_all
qed

lemma op64_19:
  "div64 (Fin (6004799503160661 / 18014398509481984)) (Fin (1376099886140985 / 1125899906842624)) = Fin (1228254443828317 / 4503599627370496)"
proof -
  have nz: "(1376099886140985 / 1125899906842624::real) \<noteq> 0" by simp
  show ?thesis unfolding div64_Fin [OF nz]
    by (rule arg_cong [where f = Fin], rule fl64_eval [where k = 54 and m = 4913017775313268]) simp_all
qed

lemma op64_20:
  "div64 (Fin (2001599834386887 / 9007199254740992)) (Fin (1376099886140985 / 1125899906842624)) = Fin (6550690367084357 / 36028797018963968)"
proof -
  have nz: "(1376099886140985 / 1125899906842624::real) \<noteq> 0" by simp
  show ?thesis unfolding div64_Fin [OF nz]
    by (rule arg_cong [where f = Fin], rule fl64_eval [where k = 55 and m = 6550690367084357]) simp_all
qed

lemma op64_21:
  "add64 (Fin 0) (Fin (1228254443828317 / 2251799813685248)) = Fin (1228254443828317 / 2251799813685248)"
  unfolding add64_Fin
  by (rule arg_cong [where f = Fin], rule fl64_eval [where k = 53 and m = 4913017775313268]) simp_all

lemma op64_22:
  "add64 (Fin (1228254443828317 / 2251799813685248)) (Fin (1228254443828317 / 4503599627370496)) = Fin (3684763331484951 / 4503599627370496)"
  unfolding add64_Fin
  by (rule arg_cong [where f = Fin], rule fl64_eval [where k = 53 and m = 7369526662969902]) simp_all

lemma op64_23:
  "add64 (Fin (3684763331484951 / 4503599627370496)) (Fin (6550690367084357 / 36028797018963968)) = Fin (9007199254740991 / 9007199254740992)"
  unfolding add64_Fin
  by (rule arg_cong [where f = Fin], rule fl64_eval [where k = 53 and m = 9007199254740991]) simp_all

lemma op64_24:
  "div64 (Fin 1) (Fin 2) = Fin (1 / 2)"
proof -
  have nz: "(2::real) \<noteq> 0" by simp
  show ?thesis unfolding div64_Fin [OF nz]
    by (rule arg_cong [where f = Fin], rule fl64_eval [where k = 53 and m = 4503599627370496]) simp_all
qed

lemma op64_25:
  "mul64 (Fin (1 / 2)) (Fin 1) = Fin (1 / 2)"
  unfolding mul64_Fin
  by (rule arg_cong [where f = Fin], rule fl64_eval [where k = 53 and m = 4503599627370496]) simp_all

lemma op64_26:
  "add64 (Fin (1 / 2)) (Fin (1 / 2)) = Fin 1"
  unfolding add64_Fin
  by (rule arg_cong [where f = Fin], rule fl64_eval [where k = 52 and m = 4503599627370496]) simp_all

lemma op64_27:
  "div64 (Fin 0) (Fin 1) = Fin 0"
proof -
  have nz: "(1::real) \<noteq> 0" by simp
  show ?thesis unfolding div64_Fin [OF nz] by simp
qed

lemma op64_28:
  "div64 (Fin 2) (Fin 1) = Fin 2"
proof -
  have nz: "(1::real) \<noteq> 0" by simp
  show ?thesis unfolding div64_Fin [OF nz]
    by (rule arg_cong [where f = Fin], rule fl64_eval [where k = 51 and m = 4503599627370496]) simp_all
qed

lemma op64_29:
  "add64 (Fin 0) (Fin 2) = Fin 2"
  unfolding add64_Fin
  by (rule arg_cong [where f = Fin], rule fl64_eval [where k = 51 and m = 4503599627370496]) simp_all

lemma op64_30:
  "add64 (Fin 2) (Fin 0) = Fin 2"
  unfolding add64_Fin
  by (rule arg_cong [where f = Fin], rule fl64_eval [where k = 51 and m = 4503599627370496]) simp_all

lemma op64_31:
  "add64 (Fin 0) (Fin (1 / 2)) = Fin (1 / 2)"
  unfolding add64_Fin
  by (rule arg_cong [where f = Fin], rule fl64_eval [where k = 53 and m = 4503599627370496]) simp_all

lemma op64_32:
  "div64 (Fin (1 / 2)) (Fin 1) = Fin (1 / 2)"
proof -
  have nz: "(1::real) \<noteq> 0" by simp
  show ?thesis unfolding div64_Fin [OF nz]
    by (rule arg_cong [where f = Fin], rule fl64_eval [where k = 53 and m = 4503599627370496]) simp_all
qed

lemma op64_33:
  "sub64 (Fin (1 / 2)) (Fin (1 / 2)) = Fin 0"
  unfolding sub64_Fin by simp

lemmas op64_eval = op64_0 op64_1 op64_2 op64_3 op64_4 op64_5 op64_6 op64_7 op64_8 op64_9
  op64_10 op64_11 op64_12 op64_13 op64_14 op64_15 op64_16 op64_17 op64_18 op64_19 op64_20
  op64_21 op64_22 op64_23 op64_24 op64_25 op64_26 op64_27 op64_28 op64_29 op64_30 op64_31
  op64_32 op64_33

lemmas array_eval64 = BTMLE_update64_def Let_def np_T_def shape_def mat_of_def mm2_def lift_def
  np_tile_def seq_sum64_def numeral_2_eq_2 numeral_3_eq_3

lemma BTMLE_update64_three_form:
  "BTMLE_update64 seq_sum64 [[0, 0, 1], [0, 0, 1], [0, 1, 0]] [x, x, x] =
     (let q0 = div64 (Fin 0) (add64 x x);
          q1 = div64 (Fin 1) (add64 x x);
          q2 = div64 (Fin 2) (add64 x x);
          r0 = div64 (add64 (add64 (add64 (Fin 0) (Fin 0)) (Fin 0)) (Fin 1))
                     (add64 (add64 (add64 (Fin 0) q0) q0) q1);
          r1 = div64 (add64 (add64 (add64 (Fin 0) (Fin 0)) (Fin 0)) (Fin 1))
                     (add64 (add64 (add64 (Fin 0) q0) q0) q2);
          r2 = div64 (add64 (add64 (add64 (Fin 0) (Fin 0)) (Fin 1)) (Fin 0))
                     (add64 (add64 (add64 (Fin 0) q1) q2) q0);
          s = add64 (add64 (add64 (Fin 0) r0) r1) r2
      in [div64 r0 s, div64 r1 s, div64 r2 s])"
  by (simp add: array_eval64 fl64_one fl64_two)

lemma BTMLE_p0_64_three:
  "BTMLE_p0_64 3 = [Fin (6004799503160661 / 18014398509481984),
                    Fin (6004799503160661 / 18014398509481984),
                    Fin (6004799503160661 / 18014398509481984)]"
proof -
  have r: "real 3 = 3" by simp
  have "BTMLE_p0_64 3 = replicate 3 (Fin (6004799503160661 / 18014398509481984))"
    unfolding BTMLE_p0_64_def r op64_eval ..
  then show ?thesis by (simp add: numeral_3_eq_3)
qed

lemma BTMLE_update64_three_first:
  "BTMLE_update64 seq_sum64 [[0, 0, 1], [0, 0, 1], [0, 1, 0]]
       [Fin (6004799503160661 / 18014398509481984),
        Fin (6004799503160661 / 18014398509481984),
        Fin (6004799503160661 / 18014398509481984)]
     = [Fin (1228254443828317 / 2251799813685248),
        Fin (1228254443828317 / 4503599627370496),
        Fin (6550690367084357 / 36028797018963968)]"
  unfolding BTMLE_update64_three_form Let_def op64_eval by (rule refl)

lemma BTMLE_pass64_three_first:
  "BTMLE_pass64 seq_sum64 [[0, 0, 1], [0, 0, 1], [0, 1, 0]]
       [Fin (6004799503160661 / 18014398509481984),
        Fin (6004799503160661 / 18014398509481984),
        Fin (6004799503160661 / 18014398509481984)]
     = Inr [Fin (1228254443828317 / 2251799813685248),
            Fin (1228254443828317 / 4503599627370496),
            Fin (6550690367084357 / 36028797018963968)]"
  unfolding BTMLE_pass64_def BTMLE_update64_three_first Let_def
  by (simp add: sub64_Fin)

lemma BTMLE_iterate64_three_first:
  "BTMLE_iterate64 seq_sum64 [[0, 0, 1], [0, 0, 1], [0, 1, 0]] (Suc 0)
     = Inr [Fin (1228254443828317 / 2251799813685248),
            Fin (1228254443828317 / 4503599627370496),
            Fin (6550690367084357 / 36028797018963968)]"
proof -
  have l: "length [[0, 0, 1], [0, 0, 1], [0, 1, 0::real]] = 3" by simp
  show ?thesis
    by (simp only: BTMLE_iterate64.simps l BTMLE_p0_64_three sum.case BTMLE_pass64_three_first)
qed

lemma seq_sum64_three_first:
  "seq_sum64 [Fin (1228254443828317 / 2251799813685248),
              Fin (1228254443828317 / 4503599627370496),
              Fin (6550690367084357 / 36028797018963968)]
     = Fin (9007199254740991 / 9007199254740992)"
  unfolding seq_sum64_def foldl.simps op64_eval by (rule refl)

text \<open>The matrix \<open>[[0, 1], [1, 0]]\<close>: the start vector is the fixed point.\<close>

lemma BTMLE_update64_pair_form:
  "BTMLE_update64 seq_sum64 [[0, 1], [1, 0]] [x, x] =
     (let q0 = div64 (Fin 0) (add64 x x);
          q2 = div64 (Fin 2) (add64 x x);
          r0 = div64 (add64 (add64 (Fin 0) (Fin 0)) (Fin 1)) (add64 (add64 (Fin 0) q0) q2);
          r1 = div64 (add64 (add64 (Fin 0) (Fin 1)) (Fin 0)) (add64 (add64 (Fin 0) q2) q0);
          s = add64 (add64 (Fin 0) r0) r1
      in [div64 r0 s, div64 r1 s])"
  by (simp add: array_eval64 fl64_two)

lemma BTMLE_p0_64_pair: "BTMLE_p0_64 2 = [Fin (1 / 2), Fin (1 / 2)]"
proof -
  have r: "real 2 = 2" by simp
  have "BTMLE_p0_64 2 = replicate 2 (Fin (1 / 2))"
    unfolding BTMLE_p0_64_def r op64_eval ..
  then show ?thesis by (simp add: numeral_2_eq_2)
qed

lemma BTMLE_update64_pair:
  "BTMLE_update64 seq_sum64 [[0, 1], [1, 0]] [Fin (1 / 2), Fin (1 / 2)] = [Fin (1 / 2), Fin (1 / 2)]"
  unfolding BTMLE_update64_pair_form Let_def op64_eval by (rule refl)

lemma BTMLE_body64_pair:
  "BTMLE_body64 seq_sum64 linalg_norm [[0, 1], [1, 0]] [Fin (1 / 2), Fin (1 / 2)]
     = Inr ([Fin (1 / 2), Fin (1 / 2)], 0)"
  unfolding BTMLE_body64_def BTMLE_pass64_def BTMLE_update64_pair Let_def
  by (simp add: linalg_norm_def sub64_Fin)

lemma fl64_DELTA_THR_nonneg: "\<not> fl64 DELTA_THR < 0"
  unfolding not_less by (rule fl64_nonneg(3)) (simp add: DELTA_THR_def)

lemma BTMLE_loop64_pair:
  "BTMLE_loop64 seq_sum64 linalg_norm [[0, 1], [1, 0]] (BTMLE_p0_64 2)
     = Some (Inr [Fin (1 / 2), Fin (1 / 2)])"
  unfolding BTMLE_p0_64_pair
  by (subst BTMLE_loop64.simps) (simp add: BTMLE_body64_pair fl64_DELTA_THR_nonneg)

section \<open>The claims\<close>

text \<open>
  C7. When the aggregated comparison matrix is not square (its row count differs from its
  column count), each of the three solvers fails with the assertion error of its shape
  check: whatever the pseudo-inverse routine, the optimiser and the options are, no score
  is returned, and neither fitting loop nor optimiser is entered.
\<close>

theorem non_square_matrix_rejected:
  assumes "shape (np_nansum_axis2 (opinion_score_3darray reader)) = (n, m)" and "n \<noteq> m"
  shows "BTNR_run_modeling pinv reader kw = Some (Inl (AssertionError []))
       \<and> BTMLE_run_modeling pinv' reader kw = Some (Inl (AssertionError []))
       \<and> Thurstone_run_modeling cdf minimize reader kw = Inl (AssertionError [])"
  using assms
  by (simp add: BTNR_run_modeling_def BTMLE_run_modeling_def Thurstone_run_modeling_def
      BTNR_fit_non_square BTMLE_fit_non_square Thurstone_fit_non_square)

theorem non_square_matrix_rejected_witness:
  "shape (np_nansum_axis2 (opinion_score_3darray
      \<lparr>opinion_score_3darray = [[[Some 1, None], [Some 2, Some 3]]]\<rparr>)) = (1, 2)
   \<and> (1::nat) \<noteq> 2
   \<and> BTNR_run_modeling pinv_1x1
        \<lparr>opinion_score_3darray = [[[Some 1, None], [Some 2, Some 3]]]\<rparr> Map.empty
        = Some (Inl (AssertionError []))
   \<and> BTMLE_run_modeling (pinv_table [])
        \<lparr>opinion_score_3darray = [[[Some 1, None], [Some 2, Some 3]]]\<rparr> Map.empty
        = Some (Inl (AssertionError []))
   \<and> Thurstone_run_modeling std_normal_cdf (minimize_const \<lparr>ret_success = True, ret_x = []\<rparr>)
        \<lparr>opinion_score_3darray = [[[Some 1, None], [Some 2, Some 3]]]\<rparr> Map.empty
        = Inl (AssertionError [])"
proof -
  have s: "shape (np_nansum_axis2 (opinion_score_3darray
      \<lparr>opinion_score_3darray = [[[Some 1, None], [Some 2, Some 3]]]\<rparr>)) = (1, 2)"
    by (simp add: shape_def np_nansum_axis2_def)
  have d: "(1::nat) \<noteq> 2" by simp
  show ?thesis
    using s d non_square_matrix_rejected [OF s d, of pinv_1x1 Map.empty "pinv_table []"
        std_normal_cdf "minimize_const \<lparr>ret_success = True, ret_x = []\<rparr>"]
    by simp
qed

text \<open>
  C6. In the Thurstone solver the optimiser's success flag is checked after the call of
  \<^verbatim>\<open>minimize\<close>: for a square matrix, when the optimiser returns with the flag unset the
  call fails with the assertion error "minimization is unsuccessful." and returns no
  result; when the flag is set the call returns the optimiser's parameter vector as
  \<^verbatim>\<open>quality_scores\<close>, with \<^verbatim>\<open>quality_scores_std\<close> absent.
\<close>

theorem thurstone_success_flag_checked:
  assumes "np_nansum_axis2 (opinion_score_3darray reader) = alpha"
    and "shape alpha = (M, M)"
    and "minimize (\<lambda>v. log_likelihood_function cdf v alpha M) (replicate M 0) = Inr ret"
  shows "(\<not> ret_success ret \<longrightarrow>
            Thurstone_run_modeling cdf minimize reader kw
              = Inl (AssertionError ''minimization is unsuccessful.''))
       \<and> (ret_success ret \<longrightarrow>
            Thurstone_run_modeling cdf minimize reader kw
              = Inr \<lparr>quality_scores = ret_x ret, quality_scores_std = None\<rparr>)"
  using assms
    Thurstone_fit_square [where alpha = alpha and M = M and minimize = minimize
      and cdf = cdf and ret = ret and kw = kw]
  by (simp add: Thurstone_run_modeling_def)

theorem thurstone_success_flag_checked_witness:
  "Thurstone_run_modeling std_normal_cdf
       (minimize_const \<lparr>ret_success = False, ret_x = [Fin 1, Fin 0]\<rparr>)
       \<lparr>opinion_score_3darray = [[[Some 0], [Some 1]], [[Some 1], [Some 0]]]\<rparr> Map.empty
     = Inl (AssertionError ''minimization is unsuccessful.'')
   \<and> Thurstone_run_modeling std_normal_cdf
       (minimize_const \<lparr>ret_success = True, ret_x = [Fin 1, Fin 0]\<rparr>)
       \<lparr>opinion_score_3darray = [[[Some 0], [Some 1]], [[Some 1], [Some 0]]]\<rparr> Map.empty
     = Inr \<lparr>quality_scores = [Fin 1, Fin 0], quality_scores_std = None\<rparr>"
proof -
  have a: "np_nansum_axis2 (opinion_score_3darray
      \<lparr>opinion_score_3darray = [[[Some 0], [Some 1]], [[Some 1], [Some 0]]]\<rparr>) = [[0, 1], [1, 0]]"
    by (simp add: np_nansum_axis2_def)
  have s: "shape [[0, 1], [1, 0::real]] = (2, 2)"
    by (simp add: shape_def)
  have m: "minimize_const res (\<lambda>v. log_likelihood_function std_normal_cdf v [[0, 1], [1, 0]] 2)
      (replicate 2 0) = Inr res" for res
    by (simp add: minimize_const_def)
  show ?thesis
    using a s m
      thurstone_success_flag_checked [where alpha = "[[0, 1], [1, 0]]" and M = 2
        and cdf = std_normal_cdf and kw = Map.empty
        and reader = "\<lparr>opinion_score_3darray = [[[Some 0], [Some 1]], [[Some 1], [Some 0]]]\<rparr>"
        and ret = "\<lparr>ret_success = False, ret_x = [Fin 1, Fin 0]\<rparr>"
        and minimize = "minimize_const \<lparr>ret_success = False, ret_x = [Fin 1, Fin 0]\<rparr>"]
      thurstone_success_flag_checked [where alpha = "[[0, 1], [1, 0]]" and M = 2
        and cdf = std_normal_cdf and kw = Map.empty
        and reader = "\<lparr>opinion_score_3darray = [[[Some 0], [Some 1]], [[Some 1], [Some 0]]]\<rparr>"
        and ret = "\<lparr>ret_success = True, ret_x = [Fin 1, Fin 0]\<rparr>"
        and minimize = "minimize_const \<lparr>ret_success = True, ret_x = [Fin 1, Fin 0]\<rparr>"]
    by simp
qed

text \<open>
  C9. For an \<open>n \<times> n\<close> win-count matrix (\<open>n \<ge> 1\<close>) with non-negative entries that is
  symmetric (\<open>wm[i,j] = wm[j,i]\<close> for all \<open>i, j\<close>), the BTNR loop exits after its first
  pass and the score vector (line 163, before the optional standardisation) is the zero
  vector, so all its entries are equal; without \<^verbatim>\<open>zscore_output\<close> this is the vector
  returned. The pseudo-inverse routine is only required to return a matrix of the shape
  of its argument.
\<close>

theorem BTNR_symmetric_matrix_equal_scores:
  assumes "np_nansum_axis2 (opinion_score_3darray reader) = wm"
    and "is_mat wm n n" and "0 < n"
    and "\<forall>i<n. \<forall>j<n. wm ! i ! j = wm ! j ! i"
    and "\<forall>i<n. \<forall>j<n. 0 \<le> wm ! i ! j"
    and "pinv_keeps_shape pinv"
  shows "BTNR_scores pinv wm = Some (Inr (replicate n 0))
       \<and> (\<not> truthy (zscore_output_of kw) \<longrightarrow>
            BTNR_run_modeling pinv reader kw
              = Some (Inr \<lparr>quality_scores = replicate n (Fin 0), quality_scores_std = None\<rparr>))"
  using assms(1) BTNR_scores_symmetric [OF assms(2-6)]
  by (simp add: BTNR_run_modeling_def BTNR_fit_def)

theorem BTNR_symmetric_matrix_equal_scores_witness:
  "BTNR_scores pinv_1x1 [[0, 3], [3, 0]] = Some (Inr [0, 0])
   \<and> BTNR_run_modeling pinv_1x1
        \<lparr>opinion_score_3darray = [[[Some 0, None], [Some 1, Some 2]], [[Some 3, None], [None, Some 0]]]\<rparr>
        Map.empty
      = Some (Inr \<lparr>quality_scores = [Fin 0, Fin 0], quality_scores_std = None\<rparr>)"
proof -
  have a: "np_nansum_axis2 (opinion_score_3darray
      \<lparr>opinion_score_3darray = [[[Some 0, None], [Some 1, Some 2]], [[Some 3, None], [None, Some 0]]]\<rparr>)
      = [[0, 3], [3, 0]]"
    by (simp add: np_nansum_axis2_def)
  have m: "is_mat [[0, 3], [3, 0::real]] 2 2" by (simp add: is_mat_def)
  have n: "0 < (2::nat)" by simp
  have s: "\<forall>i<2. \<forall>j<2. [[0, 3], [3, 0::real]] ! i ! j = [[0, 3], [3, 0]] ! j ! i"
    by (simp add: less_Suc_eq numeral_2_eq_2)
  have p: "\<forall>i<2. \<forall>j<2. 0 \<le> [[0, 3], [3, 0::real]] ! i ! j"
    by (simp add: less_Suc_eq numeral_2_eq_2)
  have z: "\<not> truthy (zscore_output_of Map.empty)" by (simp add: zscore_output_of_def)
  from BTNR_symmetric_matrix_equal_scores [OF a m n s p pinv_1x1_keeps_shape, of Map.empty] z
  show ?thesis by (simp add: numeral_2_eq_2)
qed

text \<open>
  C4. Whenever the BTNR solver returns a result, the score vector it has at line 163,
  before any standardisation, is the raw (not exponentiated) \<^verbatim>\<open>gamma\<close> of the state in
  which the loop exited, and its last entry is exactly 0; without \<^verbatim>\<open>zscore_output\<close>
  that vector is returned as it is. (The matrix need not be non-negative for this.)
\<close>

theorem BTNR_scores_raw_gamma_last_zero:
  assumes "np_nansum_axis2 (opinion_score_3darray reader) = wm"
    and "BTNR_run_modeling pinv reader kw = Some (Inr res)"
  shows "\<exists>st0 st ss. BTNR_init wm = Inr st0 \<and> BTNR_loop pinv wm st0 = Some (Inr st)
           \<and> BTNR_scores pinv wm = Some (Inr ss) \<and> ss = st_gamma st
           \<and> length ss = length wm \<and> ss \<noteq> [] \<and> last ss = 0
           \<and> quality_scores res = (if truthy (zscore_output_of kw) then zscore ss else map Fin ss)
           \<and> quality_scores_std res = None"
proof -
  from assms obtain ss where sc: "BTNR_scores pinv wm = Some (Inr ss)"
    and res: "res = \<lparr>quality_scores = (if truthy (zscore_output_of kw) then zscore ss else map Fin ss),
                     quality_scores_std = None\<rparr>"
    by (auto simp: BTNR_run_modeling_def BTNR_fit_def split: option.splits sum.splits)
  from BTNR_scores_gamma [OF sc] sc res show ?thesis by auto
qed

theorem BTNR_scores_raw_gamma_last_zero_witness:
  "BTNR_run_modeling pinv_1x1
        \<lparr>opinion_score_3darray = [[[Some 0], [Some 3]], [[Some 3], [Some 0]]]\<rparr> Map.empty
      = Some (Inr \<lparr>quality_scores = [Fin 0, Fin 0], quality_scores_std = None\<rparr>)
   \<and> (\<exists>st0 st ss. BTNR_init [[0, 3], [3, 0]] = Inr st0
         \<and> BTNR_loop pinv_1x1 [[0, 3], [3, 0]] st0 = Some (Inr st)
         \<and> BTNR_scores pinv_1x1 [[0, 3], [3, 0]] = Some (Inr ss) \<and> ss = st_gamma st
         \<and> last ss = 0 \<and> [Fin 0, Fin 0] = map Fin ss)"
proof -
  have a: "np_nansum_axis2 (opinion_score_3darray
      \<lparr>opinion_score_3darray = [[[Some 0], [Some 3]], [[Some 3], [Some 0]]]\<rparr>) = [[0, 3], [3, 0]]"
    by (simp add: np_nansum_axis2_def)
  have r: "BTNR_run_modeling pinv_1x1
        \<lparr>opinion_score_3darray = [[[Some 0], [Some 3]], [[Some 3], [Some 0]]]\<rparr> Map.empty
      = Some (Inr \<lparr>quality_scores = [Fin 0, Fin 0], quality_scores_std = None\<rparr>)"
    unfolding BTNR_run_modeling_def a
    by (simp add: BTNR_fit_def BTNR_scores_example zscore_output_of_def)
  from BTNR_scores_raw_gamma_last_zero [OF a r] r show ?thesis
    by (auto simp: zscore_output_of_def)
qed

text \<open>
  C8. The option \<^verbatim>\<open>zscore_output\<close> is read by the BTNR solver only. The BTMLE and the
  Thurstone solver return the same result under any two option dictionaries. When BTNR
  has reached its score vector, it returns \<open>(scores - mean) / std\<close> entry by entry if the
  option is present and truthy, and the scores unchanged otherwise; the standard
  deviation is the population one, and the division is numpy's, so a zero deviation
  yields \<open>nan\<close> entries.
\<close>

theorem zscore_output_read_by_BTNR_only:
  "BTMLE_run_modeling pinv' reader kw = BTMLE_run_modeling pinv' reader kw'
   \<and> Thurstone_run_modeling cdf minimize reader kw = Thurstone_run_modeling cdf minimize reader kw'
   \<and> (BTNR_scores pinv (np_nansum_axis2 (opinion_score_3darray reader)) = Some (Inr scores) \<longrightarrow>
        BTNR_run_modeling pinv reader kw =
          Some (Inr \<lparr>quality_scores =
                       (if \<exists>v. kw ''zscore_output'' = Some v \<and> truthy v
                        then map (\<lambda>s. np_div (Fin (s - np_mean scores)) (Fin (np_std scores))) scores
                        else map Fin scores),
                     quality_scores_std = None\<rparr>))"
proof -
  have t: "truthy (zscore_output_of kw) = (\<exists>v. kw ''zscore_output'' = Some v \<and> truthy v)"
    by (simp add: zscore_output_of_def split: option.splits)
  show ?thesis
    unfolding t [symmetric]
    by (simp add: BTMLE_run_modeling_def BTMLE_fit_def Thurstone_run_modeling_def Thurstone_fit_def
        BTNR_run_modeling_def BTNR_fit_def zscore_def Let_def)
qed

theorem zscore_output_read_by_BTNR_only_witness:
  "BTNR_scores pinv_1x1 (np_nansum_axis2 (opinion_score_3darray
        \<lparr>opinion_score_3darray = [[[Some 0], [Some 3]], [[Some 3], [Some 0]]]\<rparr>)) = Some (Inr [0, 0])
   \<and> BTNR_run_modeling pinv_1x1
        \<lparr>opinion_score_3darray = [[[Some 0], [Some 3]], [[Some 3], [Some 0]]]\<rparr>
        [''zscore_output'' \<mapsto> PyBool True]
      = Some (Inr \<lparr>quality_scores = [NaN, NaN], quality_scores_std = None\<rparr>)
   \<and> BTNR_run_modeling pinv_1x1
        \<lparr>opinion_score_3darray = [[[Some 0], [Some 3]], [[Some 3], [Some 0]]]\<rparr>
        [''zscore_output'' \<mapsto> PyNone]
      = Some (Inr \<lparr>quality_scores = [Fin 0, Fin 0], quality_scores_std = None\<rparr>)"
proof -
  have a: "np_nansum_axis2 (opinion_score_3darray
      \<lparr>opinion_score_3darray = [[[Some 0], [Some 3]], [[Some 3], [Some 0]]]\<rparr>) = [[0, 3], [3, 0]]"
    by (simp add: np_nansum_axis2_def)
  have s: "BTNR_scores pinv_1x1 (np_nansum_axis2 (opinion_score_3darray
        \<lparr>opinion_score_3darray = [[[Some 0], [Some 3]], [[Some 3], [Some 0]]]\<rparr>)) = Some (Inr [0, 0])"
    by (simp only: a BTNR_scores_example)
  have ms: "np_mean [0, 0] = 0" "np_std [0, 0] = 0"
    by (simp_all add: np_mean_def np_std_def)
  from s ms
    zscore_output_read_by_BTNR_only [where pinv = pinv_1x1 and scores = "[0, 0]"
      and kw = "[''zscore_output'' \<mapsto> PyBool True]"
      and reader = "\<lparr>opinion_score_3darray = [[[Some 0], [Some 3]], [[Some 3], [Some 0]]]\<rparr>"]
    zscore_output_read_by_BTNR_only [where pinv = pinv_1x1 and scores = "[0, 0]"
      and kw = "[''zscore_output'' \<mapsto> PyNone]"
      and reader = "\<lparr>opinion_score_3darray = [[[Some 0], [Some 3]], [[Some 3], [Some 0]]]\<rparr>"]
  show ?thesis by simp
qed

text \<open>
  C1. The claim is that the function handed to the optimiser is minus the matrix-wide sum
  of the log-likelihood contributions. The code hands over \<^verbatim>\<open>log_likelihood_function\<close>
  itself, without the negation: for the count matrix \<open>[[0, 1], [0, 0]]\<close> and the start
  vector \<open>[0, 0]\<close> the function minimised has the negative value \<open>2 ln (1/2 + eps)\<close>,
  \<open>eps = 1e-8 / 2\<close>, where the objective of the claim has the positive value
  \<open>- 2 ln (1/2 + eps)\<close>. An optimiser that reports the value of its objective at the
  start vector makes the function handed over observable.
\<close>

theorem thurstone_objective_not_negated:
  assumes "cdf 0 = 1 / 2"
  shows "Thurstone_run_modeling cdf minimize_probe
           \<lparr>opinion_score_3darray = [[[Some 0], [Some 1]], [[Some 0], [Some 0]]]\<rparr> kw
         = Inr \<lparr>quality_scores = [Fin (2 * ln (1 / 2 + 1 / (2 * 10 ^ 8)))],
                quality_scores_std = None\<rparr>
       \<and> log_likelihood_function cdf [0, 0] [[0, 1], [0, 0]] 2
           = Inr (Fin (2 * ln (1 / 2 + 1 / (2 * 10 ^ 8))))
       \<and> spec_thurstone_objective cdf [0, 0] [[0, 1], [0, 0]] 2
           = Fin (- 2 * ln (1 / 2 + 1 / (2 * 10 ^ 8)))
       \<and> 2 * ln (1 / 2 + 1 / (2 * 10 ^ 8) :: real) < 0"
proof -
  have a: "np_nansum_axis2 [[[Some 0], [Some 1]], [[Some 0], [Some 0]]] = [[0, 1], [0, 0]]"
    by (simp add: np_nansum_axis2_def)
  have r: "replicate 2 (0::real) = [0, 0]" by (simp add: numeral_2_eq_2)
  have s: "shape [[0, 1], [0, 0::real]] = (2, 2)" by (simp add: shape_def)
  have "Thurstone_run_modeling cdf minimize_probe
           \<lparr>opinion_score_3darray = [[[Some 0], [Some 1]], [[Some 0], [Some 0]]]\<rparr> kw
         = Inr \<lparr>quality_scores = [Fin (2 * ln (1 / 2 + 1 / (2 * 10 ^ 8)))],
                quality_scores_std = None\<rparr>"
    by (simp add: Thurstone_run_modeling_def Thurstone_fit_def a s Let_def
        minimize_probe_def r log_likelihood_function_example [where cdf = cdf, OF assms])
  with log_likelihood_function_example [where cdf = cdf, OF assms] spec_thurstone_objective_example [where cdf = cdf, OF assms] ln_half_eps_neg show ?thesis by simp
qed

theorem thurstone_objective_not_negated_witness:
  "std_normal_cdf 0 = 1 / 2
   \<and> log_likelihood_function std_normal_cdf [0, 0] [[0, 1], [0, 0]] 2
       = Inr (Fin (2 * ln (1 / 2 + 1 / (2 * 10 ^ 8))))
   \<and> spec_thurstone_objective std_normal_cdf [0, 0] [[0, 1], [0, 0]] 2
       = Fin (- 2 * ln (1 / 2 + 1 / (2 * 10 ^ 8)))"
  using thurstone_objective_not_negated [where cdf = std_normal_cdf, OF std_normal_cdf_0] std_normal_cdf_0 by simp

text \<open>
  C10. The claim is that after every pass through the BTMLE loop the entries of \<^verbatim>\<open>p\<close> sum
  to exactly 1. In binary64 arithmetic they do not. For the count matrix
  \<open>[[0, 0, 1], [0, 0, 1], [0, 1, 0]]\<close>, in which every item has a win, the first pass gives
  \<open>p = [1228254443828317 / 2^51, 1228254443828317 / 2^52, 6550690367084357 / 2^55]\<close>:
  the exact sum of these three doubles is \<open>1 - 3 / 2^55\<close>, and their sum as \<^verbatim>\<open>np.sum\<close>
  computes it is \<open>1 - 1 / 2^53\<close>.
\<close>

theorem BTMLE_p_sum_not_exactly_one_counterexample:
  "BTMLE_iterate64 seq_sum64 [[0, 0, 1], [0, 0, 1], [0, 1, 0]] (Suc 0)
     = Inr [Fin (1228254443828317 / 2251799813685248),
            Fin (1228254443828317 / 4503599627370496),
            Fin (6550690367084357 / 36028797018963968)]
   \<and> np_sum [Fin (1228254443828317 / 2251799813685248),
             Fin (1228254443828317 / 4503599627370496),
             Fin (6550690367084357 / 36028797018963968)] = Fin (1 - 3 / 2 ^ 55)
   \<and> np_sum [Fin (1228254443828317 / 2251799813685248),
             Fin (1228254443828317 / 4503599627370496),
             Fin (6550690367084357 / 36028797018963968)] \<noteq> Fin 1
   \<and> seq_sum64 [Fin (1228254443828317 / 2251799813685248),
                Fin (1228254443828317 / 4503599627370496),
                Fin (6550690367084357 / 36028797018963968)] = Fin (1 - 1 / 2 ^ 53)
   \<and> seq_sum64 [Fin (1228254443828317 / 2251799813685248),
                Fin (1228254443828317 / 4503599627370496),
                Fin (6550690367084357 / 36028797018963968)] \<noteq> Fin 1"
proof -
  have s: "np_sum [Fin (1228254443828317 / 2251799813685248),
             Fin (1228254443828317 / 4503599627370496),
             Fin (6550690367084357 / 36028797018963968)] = Fin (1 - 3 / 2 ^ 55)"
    by simp
  have t: "seq_sum64 [Fin (1228254443828317 / 2251799813685248),
                Fin (1228254443828317 / 4503599627370496),
                Fin (6550690367084357 / 36028797018963968)] = Fin (1 - 1 / 2 ^ 53)"
    unfolding seq_sum64_three_first by simp
  have s': "Fin (1 - 3 / 2 ^ 55) \<noteq> Fin 1" by simp
  have t': "Fin (1 - 1 / 2 ^ 53) \<noteq> Fin 1" by simp
  show ?thesis
    unfolding BTMLE_iterate64_three_first s t using s' t' by simp
qed

text \<open>
  C10 as amended. In binary64 arithmetic (without overflow and underflow), for an
  \<open>M \<times> M\<close> matrix of non-negative counts with \<open>M \<ge> 1\<close> and for every summation routine that
  meets \<open>np_sum_contract\<close>: after every completed pass through the loop body (a pass is
  completed when \<^verbatim>\<open>linalg.norm\<close> has accepted \<^verbatim>\<open>p - p_prev\<close> as finite), and so at the exit
  of the loop, the entries of \<^verbatim>\<open>p\<close> sum to 1 up to rounding: their exact sum lies between
  \<open>(1 - u) / (1 + u)^M\<close> and \<open>(1 + u) / (1 - u)^M\<close> for \<open>u = 2^-53\<close>. When moreover every item
  has at least one win (every row sum is positive), every pass is completed and every
  entry of \<^verbatim>\<open>p\<close> is a strictly positive number, also at the exit of the loop, where the
  logarithm is taken.
\<close>

theorem BTMLE_p_sums_to_one_up_to_rounding_and_positive:
  assumes "np_sum_contract npsum" and "is_mat alpha M M" and "0 < M"
    and "\<forall>i<M. \<forall>j<M. 0 \<le> alpha ! i ! j"
  shows "(\<forall>k p. BTMLE_iterate64 npsum alpha (Suc k) = Inr p \<longrightarrow> sum_near_one M p)
       \<and> (\<forall>p. BTMLE_loop64 npsum nrm alpha (BTMLE_p0_64 M) = Some (Inr p) \<longrightarrow> sum_near_one M p)
       \<and> ((\<forall>i<M. 0 < sum_list (alpha ! i)) \<longrightarrow>
            (\<forall>k. \<exists>p. BTMLE_iterate64 npsum alpha k = Inr p \<and> list_all np_pos p)
          \<and> (\<forall>p. BTMLE_loop64 npsum nrm alpha (BTMLE_p0_64 M) = Some (Inr p) \<longrightarrow> list_all np_pos p))"
proof -
  from assms(2) have l: "length alpha = M" by (simp add: is_mat_def)
  have it: "sum_near_one M p" if "BTMLE_iterate64 npsum alpha (Suc k) = Inr p" for k p
    by (rule BTMLE_iterate64_near_one [OF assms that])
  have lp: "\<exists>k. BTMLE_iterate64 npsum alpha (Suc k) = Inr p"
    if "BTMLE_loop64 npsum nrm alpha (BTMLE_p0_64 M) = Some (Inr p)" for p
    using BTMLE_loop64_is_iterate [of npsum nrm alpha p] that l by simp
  have pos: "\<exists>p. BTMLE_iterate64 npsum alpha k = Inr p \<and> list_all np_pos p"
    if "\<forall>i<M. 0 < sum_list (alpha ! i)" for k
    using BTMLE_iterate64_pos [OF assms that, of k] by blast
  have lpos: "list_all np_pos p"
    if h: "\<forall>i<M. 0 < sum_list (alpha ! i)"
      and e: "BTMLE_loop64 npsum nrm alpha (BTMLE_p0_64 M) = Some (Inr p)" for p
  proof -
    from lp [OF e] obtain k where "BTMLE_iterate64 npsum alpha (Suc k) = Inr p" ..
    with pos [OF h, of "Suc k"] show ?thesis by simp
  qed
  from it lp pos lpos show ?thesis by blast
qed

theorem BTMLE_p_sums_to_one_up_to_rounding_and_positive_witness:
  "np_sum_contract seq_sum64
   \<and> is_mat [[0, 1], [1, 0::real]] 2 2
   \<and> BTMLE_loop64 seq_sum64 linalg_norm [[0, 1], [1, 0]] (BTMLE_p0_64 2)
       = Some (Inr [Fin (1 / 2), Fin (1 / 2)])
   \<and> sum_near_one 2 [Fin (1 / 2), Fin (1 / 2)]
   \<and> list_all np_pos [Fin (1 / 2), Fin (1 / 2)]
   \<and> is_mat [[0, 0, 1], [0, 0, 1], [0, 1, 0::real]] 3 3
   \<and> BTMLE_iterate64 seq_sum64 [[0, 0, 1], [0, 0, 1], [0, 1, 0]] (Suc 0)
       = Inr [Fin (1228254443828317 / 2251799813685248),
              Fin (1228254443828317 / 4503599627370496),
              Fin (6550690367084357 / 36028797018963968)]
   \<and> sum_near_one 3 [Fin (1228254443828317 / 2251799813685248),
                      Fin (1228254443828317 / 4503599627370496),
                      Fin (6550690367084357 / 36028797018963968)]"
proof -
  have m: "is_mat [[0, 1], [1, 0::real]] 2 2" by (simp add: is_mat_def)
  have M: "0 < (2::nat)" by simp
  have n: "\<forall>i<2. \<forall>j<2. 0 \<le> [[0, 1], [1, 0::real]] ! i ! j"
    by (simp add: less_Suc_eq numeral_2_eq_2)
  have r: "\<forall>i<2. 0 < sum_list ([[0, 1], [1, 0::real]] ! i)"
    by (simp add: less_Suc_eq numeral_2_eq_2)
  have m3: "is_mat [[0, 0, 1], [0, 0, 1], [0, 1, 0::real]] 3 3" by (simp add: is_mat_def)
  have M3: "0 < (3::nat)" by simp
  have n3: "\<forall>i<3. \<forall>j<3. 0 \<le> [[0, 0, 1], [0, 0, 1], [0, 1, 0::real]] ! i ! j"
    by (simp add: less_Suc_eq numeral_3_eq_3)
  from BTMLE_p_sums_to_one_up_to_rounding_and_positive
         [OF seq_sum64_contract m M n, where nrm = linalg_norm]
       r BTMLE_loop64_pair
  have a: "sum_near_one 2 [Fin (1 / 2), Fin (1 / 2)] \<and> list_all np_pos [Fin (1 / 2), Fin (1 / 2)]"
    by blast
  from BTMLE_p_sums_to_one_up_to_rounding_and_positive
         [OF seq_sum64_contract m3 M3 n3, where nrm = linalg_norm]
       BTMLE_iterate64_three_first
  have b: "sum_near_one 3 [Fin (1228254443828317 / 2251799813685248),
                      Fin (1228254443828317 / 4503599627370496),
                      Fin (6550690367084357 / 36028797018963968)]"
    by blast
  from a b m m3 seq_sum64_contract BTMLE_loop64_pair BTMLE_iterate64_three_first
  show ?thesis by blast
qed

text \<open>
  C3. The claim is that the BTMLE standard errors are never negative or \<open>nan\<close>. Line 227
  computes \<^verbatim>\<open>lbda_ij = n / pp*2\<close>, that is \<open>(n / pp) * 2\<close>, where line 226 has
  \<^verbatim>\<open>n / pp**2\<close>. For the count matrix \<open>[[0, 32, 1], [32, 0, 1], [1, 1, 0]]\<close> the loop exits
  after its first pass with \<open>p = [1/3, 1/3, 1/3]\<close>, the bordered matrix is non-singular,
  so its pseudo-inverse is its inverse, and the three variances on the diagonal of that
  inverse are \<open>-226/681\<close>, \<open>-226/681\<close> and \<open>-4/3\<close>: every standard error is \<open>nan\<close>.
\<close>

theorem BTMLE_std_nan_on_example:
  assumes "pinv (lift B3) = Inr (lift B3inv)"
  shows "BTMLE_run_modeling pinv
           \<lparr>opinion_score_3darray = [[[Some 0], [Some 32], [Some 1]],
                                     [[Some 32], [Some 0], [Some 1]],
                                     [[Some 1], [Some 1], [Some 0]]]\<rparr> kw
         = Some (Inr \<lparr>quality_scores = [Fin (ln (1 / 3)), Fin (ln (1 / 3)), Fin (ln (1 / 3))],
                      quality_scores_std = Some [NaN, NaN, NaN]\<rparr>)
       \<and> BTMLE_bordered [[0, 32, 1], [32, 0, 1], [1, 1, 0]] [Fin (1 / 3), Fin (1 / 3), Fin (1 / 3)]
           = lift B3
       \<and> matmul_mm B3inv B3 = [[1, 0, 0, 0], [0, 1, 0, 0], [0, 0, 1, 0], [0, 0, 0, 1]]
       \<and> matmul_mm B3 B3inv = [[1, 0, 0, 0], [0, 1, 0, 0], [0, 0, 1, 0], [0, 0, 0, 1]]
       \<and> np_diagonal B3inv = [- 226 / 681, - 226 / 681, - 4 / 3, - 309]"
proof -
  have a: "np_nansum_axis2 [[[Some 0], [Some 32], [Some 1]], [[Some 32], [Some 0], [Some 1]],
      [[Some 1], [Some 1], [Some 0]]] = [[0, 32, 1], [32, 0, 1], [1, 1, 0]]"
    by (simp add: np_nansum_axis2_def)
  have s: "shape [[0, 32, 1], [32, 0, 1], [1, 1, 0::real]] = (3, 3)" by (simp add: shape_def)
  have d: "np_diagonal B3inv = [- 226 / 681, - 226 / 681, - 4 / 3, - 309]"
    by (simp add: np_diagonal_def B3inv_def shape_def eval_nat_numeral)
  have "BTMLE_run_modeling pinv
           \<lparr>opinion_score_3darray = [[[Some 0], [Some 32], [Some 1]],
                                     [[Some 32], [Some 0], [Some 1]],
                                     [[Some 1], [Some 1], [Some 0]]]\<rparr> kw
         = Some (Inr \<lparr>quality_scores = [Fin (ln (1 / 3)), Fin (ln (1 / 3)), Fin (ln (1 / 3))],
                      quality_scores_std = Some [NaN, NaN, NaN]\<rparr>)"
    by (simp add: BTMLE_run_modeling_def a BTMLE_fit_def s BTMLE_loop_skewed BTMLE_std_skewed [where pinv = pinv, OF assms])
  with BTMLE_bordered_skewed B3inv_inverse d show ?thesis by simp
qed

theorem BTMLE_std_nan_on_example_witness:
  "pinv_table [(lift B3, lift B3inv)] (lift B3) = Inr (lift B3inv)
   \<and> BTMLE_run_modeling (pinv_table [(lift B3, lift B3inv)])
           \<lparr>opinion_score_3darray = [[[Some 0], [Some 32], [Some 1]],
                                     [[Some 32], [Some 0], [Some 1]],
                                     [[Some 1], [Some 1], [Some 0]]]\<rparr> Map.empty
         = Some (Inr \<lparr>quality_scores = [Fin (ln (1 / 3)), Fin (ln (1 / 3)), Fin (ln (1 / 3))],
                      quality_scores_std = Some [NaN, NaN, NaN]\<rparr>)"
proof -
  have p: "pinv_table [(lift B3, lift B3inv)] (lift B3) = Inr (lift B3inv)"
    by (simp add: pinv_table_def)
  from BTMLE_std_nan_on_example [where pinv = "pinv_table [(lift B3, lift B3inv)]" and kw = Map.empty, OF p] p
  show ?thesis by simp
qed

text \<open>
  C2. The matrix \<open>wm = [[0, 5, 5], [0, 0, 5], [0, 0, 0]]\<close> pairs every two items, and the
  BTMLE solver returns no scores for it, whatever the pseudo-inverse routine and the
  options. Item C has no win, so the first pass gives \<open>p = [2/3, 1/3, 0]\<close>, which does order
  A, B, C. In the second pass the row sum of line 214 for C contains the term
  \<^verbatim>\<open>n[2,2] / pp[2,2]\<close> of C paired with itself, which is \<open>0 / (0 + 0)\<close>: it is \<open>nan\<close>, every
  entry of \<^verbatim>\<open>p\<close> becomes \<open>nan\<close>, and \<^verbatim>\<open>linalg.norm\<close> raises: the call ends in a
  \<^verbatim>\<open>ValueError\<close>.
\<close>

theorem BTMLE_fails_on_monotonicity_example:
  "BTMLE_run_modeling pinv
       \<lparr>opinion_score_3darray = [[[Some 0], [Some 5], [Some 5]],
                                 [[Some 0], [Some 0], [Some 5]],
                                 [[Some 0], [Some 0], [Some 0]]]\<rparr> kw
     = Some (Inl (ValueError ''array must not contain infs or NaNs''))
   \<and> BTMLE_iterate [[0, 5, 5], [0, 0, 5], [0, 0, 0]] 1 = Inr [Fin (2 / 3), Fin (1 / 3), Fin 0]
   \<and> BTMLE_update [[0, 5, 5], [0, 0, 5], [0, 0, 0]] [Fin (2 / 3), Fin (1 / 3), Fin 0]
       = [NaN, NaN, NaN]"
proof -
  have a: "np_nansum_axis2 [[[Some 0], [Some 5], [Some 5]], [[Some 0], [Some 0], [Some 5]],
      [[Some 0], [Some 0], [Some 0]]] = [[0, 5, 5], [0, 0, 5], [0, 0, 0]]"
    by (simp add: np_nansum_axis2_def)
  have s: "shape [[0, 5, 5], [0, 0, 5], [0, 0, 0::real]] = (3, 3)" by (simp add: shape_def)
  have r: "BTMLE_run_modeling pinv
       \<lparr>opinion_score_3darray = [[[Some 0], [Some 5], [Some 5]],
                                 [[Some 0], [Some 0], [Some 5]],
                                 [[Some 0], [Some 0], [Some 0]]]\<rparr> kw
     = Some (Inl (ValueError ''array must not contain infs or NaNs''))"
    by (simp add: BTMLE_run_modeling_def a BTMLE_fit_def s BTMLE_loop_abc)
  have i: "BTMLE_iterate [[0, 5, 5], [0, 0, 5], [0, 0, 0]] 1 = Inr [Fin (2 / 3), Fin (1 / 3), Fin 0]"
    using BTMLE_body_abc_first by (simp add: numeral_3_eq_3)
  from r i BTMLE_update_abc_second show ?thesis by simp
qed

end
